theory Spec2Isabelle
  imports Complex_Main
begin

section \<open>Conversion of Decathlon volumes to one HDF5 container\<close>

text \<open>
  A shallow embedding of \<^verbatim>\<open>single-node/convert_raw_to_hdf5.py\<close>. Exceptions of the
  Python program are values of the type \<open>error\<close>; a computation that may raise returns
  \<open>error + 'a\<close>, with \<open>Inl\<close> for the exception.
\<close>

datatype error =
    KeyError string
  | NameError string
  | OSError string
  | IndexError
  | ValueError
  | TypeError
  | AxisError

text \<open>Sequencing of computations that may raise.\<close>

definition ebind :: "error + 'a \<Rightarrow> ('a \<Rightarrow> error + 'b) \<Rightarrow> error + 'b" where
  "ebind r f = (case r of Inl e \<Rightarrow> Inl e | Inr x \<Rightarrow> f x)"

subsection \<open>The train/validation split\<close>

text \<open>
  \<^verbatim>\<open>idxList[mask]\<close>: indexing a one-dimensional array with a boolean array of the same
  length keeps the entries whose mask is true, in their order.
\<close>

definition mask_select :: "'a list \<Rightarrow> bool list \<Rightarrow> 'a list" where
  "mask_select xs m = map fst (filter snd (zip xs m))"

text \<open>
  Lines 293 to 300 of the script. The generator is a parameter: \<open>rnd i\<close> is the \<open>i\<close>-th
  value that \<^verbatim>\<open>np.random.random\<close> draws after \<^verbatim>\<open>np.random.seed(816)\<close>, so that
  \<^verbatim>\<open>np.random.random((numFiles))\<close> is the list of the first \<open>numFiles\<close> draws.
  \<^verbatim>\<open>np.random.random\<close> refuses a negative size with a ValueError; \<^verbatim>\<open>np.arange\<close> of a
  negative number is empty. The result is the pair (trainList, validateList).
\<close>

definition splitter :: "(nat \<Rightarrow> real) \<Rightarrow> int \<Rightarrow> real \<Rightarrow> error + (nat list \<times> nat list)" where
  "splitter rnd numFiles split =
     (let idxList = [0..<nat numFiles] in
      if numFiles < 0 then Inl ValueError
      else
        let randomList = map rnd [0..<nat numFiles];
            trainList = mask_select idxList (map (\<lambda>r. r < split) randomList);
            validateList = mask_select idxList (map (\<lambda>r. r \<ge> split) randomList)
        in Inr (trainList, validateList))"

subsection \<open>Arrays\<close>

text \<open>
  A numpy array is its shape and its entries, read at a multi-index. Entries at indices
  outside the shape are of no concern: the program never reads them.
\<close>

record 'a ndarray =
  shape :: "nat list"
  elem :: "nat list \<Rightarrow> 'a"

text \<open>All indices of an array of a given shape, in row-major order.\<close>

fun ndindex :: "nat list \<Rightarrow> nat list list" where
  "ndindex [] = [[]]"
| "ndindex (n # ns) = concat (map (\<lambda>i. map ((#) i) (ndindex ns)) [0..<n])"

definition ravel :: "'a ndarray \<Rightarrow> 'a list" where
  "ravel a = map (elem a) (ndindex (shape a))"

text \<open>
  A bound of a Python slice \<^verbatim>\<open>a[start:stop]\<close> on an axis of length \<open>n\<close>: a negative
  bound counts from the end, and the result is clipped to the axis.
\<close>

definition slice_index :: "int \<Rightarrow> nat \<Rightarrow> nat" where
  "slice_index i n =
     (let j = (if i < 0 then i + int n else i)
      in if j < 0 then 0 else if int n < j then n else nat j)"

fun shift_index :: "nat list \<Rightarrow> nat list \<Rightarrow> nat list" where
  "shift_index (s # ss) (i # idx) = (s + i) # shift_index ss idx"
| "shift_index ss idx = idx"

text \<open>
  \<^verbatim>\<open>a[startx:endx, starty:endy, startz:endz]\<close>, and the same with a trailing \<^verbatim>\<open>:\<close>
  on an array of four axes: the first three axes are cut, any further axis is kept whole.
\<close>

definition slice_xyz :: "'a ndarray \<Rightarrow> int \<times> int \<Rightarrow> int \<times> int \<Rightarrow> int \<times> int \<Rightarrow> 'a ndarray" where
  "slice_xyz a sx sy sz =
     (let bs = map2 (\<lambda>(start, stop) n. (slice_index start n, slice_index stop n))
                 [sx, sy, sz] (take 3 (shape a))
      in \<lparr>shape = map (\<lambda>(lo, hi). hi - lo) bs @ drop 3 (shape a),
          elem = (\<lambda>idx. elem a (shift_index (map fst bs) idx))\<rparr>)"

text \<open>
  Lines 60 to 63 of \<^verbatim>\<open>crop_center\<close>: the shape is unpacked into \<open>x, y, z, c\<close> when it
  has four entries and into \<open>x, y, z\<close> otherwise, which raises a ValueError unless it
  has three.
\<close>

fun unpack_shape :: "nat list \<Rightarrow> error + (int \<times> int \<times> int)" where
  "unpack_shape [x, y, z, c] = Inr (int x, int y, int z)"
| "unpack_shape [x, y, z] = Inr (int x, int y, int z)"
| "unpack_shape sh = Inl ValueError"

text \<open>Python's \<^verbatim>\<open>//\<close> on integers rounds down, as \<open>div\<close> on \<open>int\<close> does.\<close>

definition crop_center :: "'a ndarray \<Rightarrow> int \<Rightarrow> int \<Rightarrow> int \<Rightarrow> error + 'a ndarray" where
  "crop_center img cropx cropy cropz =
     (case unpack_shape (shape img) of
        Inl e \<Rightarrow> Inl e
      | Inr (x, y, z) \<Rightarrow>
          let startx = max (x div 2 - cropx div 2) 0;
              starty = max (y div 2 - cropy div 2) 0;
              startz = max (z div 2 - cropz div 2) 0;
              endx = min (startx + cropx) x;
              endy = min (starty + cropy) y;
              endz = min (startz + cropz) z
          in Inr (slice_xyz img (startx, endx) (starty, endy) (startz, endz)))"

text \<open>
  \<^verbatim>\<open>msk[msk > 1] = 1\<close>: every entry greater than 1 is overwritten with 1, and no
  other entry is touched. The entries have the type that the label file gives them, so
  the operation is defined for every ordered type of entries.
\<close>

definition binarize :: "'a::{ord,one} ndarray \<Rightarrow> 'a ndarray" where
  "binarize msk = msk\<lparr>elem := (\<lambda>idx. if 1 < elem msk idx then 1 else elem msk idx)\<rparr>"

text \<open>
  The window that \<^verbatim>\<open>crop_center\<close> cuts from an axis of length \<open>n\<close> for a crop size
  \<open>s\<close>: the bounds of the slice \<^verbatim>\<open>start:end\<close>, as positions on the axis.
\<close>

definition win_lo :: "nat \<Rightarrow> int \<Rightarrow> nat" where
  "win_lo n s = slice_index (max (int n div 2 - s div 2) 0) n"

definition win_hi :: "nat \<Rightarrow> int \<Rightarrow> nat" where
  "win_hi n s = slice_index (min (max (int n div 2 - s div 2) 0 + s) (int n)) n"

text \<open>
  What the specification asks of the window on one axis. Of an axis of length \<open>n\<close>
  the entries \<open>off, \<dots>, off + len - 1\<close> are kept: \<open>off\<close> entries are trimmed on the
  left and \<open>n - (off + len)\<close> on the right. When the axis is at least as long as the
  crop size \<open>s\<close>, exactly \<open>s\<close> entries are kept and the two trimmed amounts differ by
  at most one; when it is shorter, the whole axis is kept.
\<close>

definition centred_window :: "nat \<Rightarrow> int \<Rightarrow> nat \<Rightarrow> nat \<Rightarrow> bool" where
  "centred_window n s off len \<longleftrightarrow>
     off + len \<le> n \<and>
     (if s \<le> int n then int len = s \<and> \<bar>int off - int (n - (off + len))\<bar> \<le> 1
      else off = 0 \<and> len = n)"

subsection \<open>Intensity normalization\<close>

text \<open>
  \<^verbatim>\<open>img[:, :, :, channel]\<close>: the sub-array at position \<open>channel\<close> of the fourth axis.
\<close>

definition select_channel :: "'a ndarray \<Rightarrow> nat \<Rightarrow> 'a ndarray" where
  "select_channel img channel =
     \<lparr>shape = take 3 (shape img) @ drop 4 (shape img),
      elem = (\<lambda>idx. elem img (take 3 idx @ channel # drop 3 idx))\<rparr>"

text \<open>
  An array of numpy has a dtype, the type of its entries. The entries of an array of any
  numeric dtype are real numbers here, and the dtype is kept beside the array where it
  matters: where a value is written into the array, it is converted to the dtype.
  A floating-point dtype keeps the value (rounding is not part of the model). An integer
  dtype of \<open>b\<close> bits drops the fraction, rounding towards zero, and keeps the low \<open>b\<close>
  bits of the result, read as an unsigned or as a two's complement number.
\<close>

datatype dtype = Floating | SignedInt nat | UnsignedInt nat

definition trunc :: "real \<Rightarrow> int" where
  "trunc x = (if 0 \<le> x then \<lfloor>x\<rfloor> else \<lceil>x\<rceil>)"

definition cast :: "dtype \<Rightarrow> real \<Rightarrow> real" where
  "cast dt x =
     (case dt of
        Floating \<Rightarrow> x
      | UnsignedInt b \<Rightarrow> of_int (trunc x mod 2 ^ b)
      | SignedInt b \<Rightarrow> of_int ((trunc x + 2 ^ (b - 1)) mod 2 ^ b - 2 ^ (b - 1)))"

text \<open>
  \<^verbatim>\<open>np.mean\<close> and \<^verbatim>\<open>np.std\<close> over all entries of an array. The standard deviation
  of numpy is the population one: the square root of the mean of the squared absolute
  deviations from the mean. numpy computes both in floating point whatever the dtype of
  the array. Where numpy divides by zero it returns nan or an infinity and goes on; the
  reals have no such values, and nothing below is stated about a channel whose standard
  deviation is zero.
\<close>

definition mean :: "real list \<Rightarrow> real" where
  "mean xs = sum_list xs / real (length xs)"

definition std :: "real list \<Rightarrow> real" where
  "std xs = sqrt (mean (map (\<lambda>x. \<bar>x - mean xs\<bar> ^ 2) xs))"

text \<open>
  One round of the loop of \<^verbatim>\<open>normalize_img\<close>: the right-hand side is computed from
  the array as it is, then written over the channel in place, which converts it to the
  dtype \<open>dt\<close> of the array.
\<close>

definition normalize_channel :: "dtype \<Rightarrow> real ndarray \<Rightarrow> nat \<Rightarrow> real ndarray" where
  "normalize_channel dt img channel =
     (let m = mean (ravel (select_channel img channel));
          s = std (ravel (select_channel img channel))
      in img\<lparr>elem := (\<lambda>idx. if 3 < length idx \<and> idx ! 3 = channel
                               then cast dt ((elem img idx - m) / s) else elem img idx)\<rparr>)"

text \<open>
  \<^verbatim>\<open>img.shape[3]\<close> raises an IndexError on an array of fewer than four axes.
\<close>

definition normalize_img :: "dtype \<Rightarrow> real ndarray \<Rightarrow> error + real ndarray" where
  "normalize_img dt img =
     (if length (shape img) < 4 then Inl IndexError
      else Inr (fold (\<lambda>channel a. normalize_channel dt a channel) [0..<shape img ! 3] img))"

subsection \<open>Reordering axes\<close>

text \<open>
  An axis argument of numpy may be negative and then counts from the last axis; an axis
  out of range raises an AxisError.
\<close>

definition normalize_axis :: "int \<Rightarrow> nat \<Rightarrow> error + nat" where
  "normalize_axis axis ndim =
     (if - int ndim \<le> axis \<and> axis < int ndim
      then Inr (nat (if axis < 0 then axis + int ndim else axis))
      else Inl AxisError)"

definition swap_at :: "nat \<Rightarrow> nat \<Rightarrow> 'b list \<Rightarrow> 'b list" where
  "swap_at i j xs = xs[i := xs ! j, j := xs ! i]"

definition swapaxes :: "'a ndarray \<Rightarrow> int \<Rightarrow> int \<Rightarrow> error + 'a ndarray" where
  "swapaxes a axis1 axis2 =
     ebind (normalize_axis axis1 (length (shape a))) (\<lambda>i.
     ebind (normalize_axis axis2 (length (shape a))) (\<lambda>j.
       Inr \<lparr>shape = swap_at i j (shape a), elem = (\<lambda>idx. elem a (swap_at i j idx))\<rparr>))"

text \<open>\<^verbatim>\<open>np.expand_dims\<close>: a new axis of length one at the given position.\<close>

definition expand_dims :: "'a ndarray \<Rightarrow> int \<Rightarrow> error + 'a ndarray" where
  "expand_dims a axis =
     ebind (normalize_axis axis (length (shape a) + 1)) (\<lambda>p.
       Inr \<lparr>shape = take p (shape a) @ 1 # drop p (shape a),
            elem = (\<lambda>idx. elem a (take p idx @ drop (Suc p) idx))\<rparr>)"

text \<open>The rows of an array: its sub-arrays along the first axis.\<close>

definition row_of :: "'a ndarray \<Rightarrow> nat \<Rightarrow> 'a ndarray" where
  "row_of a i = \<lparr>shape = tl (shape a), elem = (\<lambda>idx. elem a (i # idx))\<rparr>"

definition rows_of :: "'a ndarray \<Rightarrow> 'a ndarray list" where
  "rows_of a = map (row_of a) [0..<hd (shape a)]"

subsection \<open>Inputs and the state of the run\<close>

text \<open>
  The parsed command line, and the manifest \<^verbatim>\<open>dataset.json\<close> with the keys that the
  script reads. The key of the licence is spelled as in the file.
\<close>

record args =
  data_path :: string
  save_path :: string
  output_filename :: string
  resize :: int
  split :: real

record sample =
  image_key :: string
  label_key :: string

record manifest =
  name :: string
  description :: string
  licence :: string
  reference :: string
  release :: string
  modalities :: "(string \<times> string) list"
  numTraining :: int
  training :: "sample list"

text \<open>
  What the run reads and does not change: the result of opening and parsing a json file,
  the array that nibabel loads from an image file, with its dtype, and from a label file,
  the stream of pseudo-random numbers after seeding, and whether the operating system
  lets a directory be created.
\<close>

record env =
  read_json :: "string \<Rightarrow> error + manifest"
  nib_image :: "string \<Rightarrow> error + dtype \<times> real ndarray"
  nib_label :: "string \<Rightarrow> error + real ndarray"
  draws :: "nat \<Rightarrow> real"
  mkdir_ok :: "string \<Rightarrow> bool"

text \<open>
  A dataset of the container is either a one-dimensional dataset of variable-length
  strings, or a dataset of floating-point numbers that can grow along its first axis:
  the shape of one row and the rows. A dataset carries attributes.
\<close>

datatype content =
    Strings "string list"
  | Floats "nat list" "real ndarray list"

record dataset =
  content :: content
  attrs :: "string \<rightharpoonup> (string \<times> string) list"

fun dataset_shape :: "content \<Rightarrow> nat list" where
  "dataset_shape (Strings xs) = [length xs]"
| "dataset_shape (Floats rs rows) = length rows # rs"

datatype message = Line string | Namespace args

text \<open>
  What the run changes: the directories and files that exist, the datasets of the open
  output container, and the lines printed so far.
\<close>

record world =
  dirs :: "string set"
  files :: "string set"
  hdf_file :: "string \<rightharpoonup> dataset"
  console :: "message list"

text \<open>
  A statement of the script maps the world to the exception it raised, if any, and the
  world it left. A sequence of statements stops at the first exception.
\<close>

type_synonym step = "world \<Rightarrow> error option \<times> world"

fun run :: "step list \<Rightarrow> step" where
  "run [] w = (None, w)"
| "run (f # fs) w = (case f w of (Some e, w') \<Rightarrow> (Some e, w') | (None, w') \<Rightarrow> run fs w')"

definition print :: "string \<Rightarrow> step" where
  "print msg w = (None, w\<lparr>console := console w @ [Line msg]\<rparr>)"

text \<open>
  Binding a local name of the script to a value: neither the container nor anything else
  of the world changes.
\<close>

definition assign_local :: "string \<Rightarrow> 'v \<Rightarrow> step" where
  "assign_local var v w = (None, w)"

subsection \<open>Datasets of the container\<close>

text \<open>
  \<^verbatim>\<open>create_dataset\<close> adds a dataset under a name that is not in use and raises a
  ValueError otherwise.
\<close>

definition create_dataset :: "string \<Rightarrow> content \<Rightarrow> step" where
  "create_dataset key c w =
     (if key \<in> dom (hdf_file w) then (Some ValueError, w)
      else (None, w\<lparr>hdf_file := (hdf_file w)(key \<mapsto> \<lparr>content = c, attrs = Map.empty\<rparr>)\<rparr>))"

text \<open>A dataset of floating-point numbers is created filled with zeros.\<close>

definition zero_row :: "nat list \<Rightarrow> real ndarray" where
  "zero_row rs = \<lparr>shape = rs, elem = (\<lambda>idx. 0)\<rparr>"

text \<open>
  \<^verbatim>\<open>dset.resize(newsize, axis=0)\<close>: rows beyond the new size are dropped, new rows are
  filled with zeros. Only a dataset created with a \<^verbatim>\<open>maxshape\<close> can be resized.
\<close>

definition resize_axis0 :: "string \<Rightarrow> nat \<Rightarrow> step" where
  "resize_axis0 key newsize w =
     (case hdf_file w key of
        None \<Rightarrow> (Some (KeyError key), w)
      | Some d \<Rightarrow>
          (case content d of
             Strings xs \<Rightarrow> (Some TypeError, w)
           | Floats rs rows \<Rightarrow>
               (None, w\<lparr>hdf_file := (hdf_file w)(key \<mapsto>
                  d\<lparr>content := Floats rs
                       (take newsize rows @ replicate (newsize - length rows) (zero_row rs))\<rparr>)\<rparr>)))"

text \<open>
  The bounds of a slice whose ends may be left out, as positions on an axis of
  length \<open>n\<close>.
\<close>

definition slice_bounds :: "int option \<Rightarrow> int option \<Rightarrow> nat \<Rightarrow> nat \<times> nat" where
  "slice_bounds start stop n =
     ((case start of None \<Rightarrow> 0 | Some i \<Rightarrow> slice_index i n),
      (case stop of None \<Rightarrow> n | Some i \<Rightarrow> slice_index i n))"

text \<open>
  How h5py brings an array to the shape of a selection. The axes of the array are matched
  with the axes of the selection from the last axis backwards. An axis of the array has
  to have the length of its axis of the selection, or the length 1; where the array has
  no axis left, the length 1 is taken; axes of the array that are left over must not be
  longer than 1. Otherwise h5py raises a TypeError. The lists are the shapes reversed.
\<close>

fun expand_rev :: "nat list \<Rightarrow> nat list \<Rightarrow> nat list option" where
  "expand_rev src [] = (if list_ex (\<lambda>n. 1 < n) src then None else Some [])"
| "expand_rev [] (c # cs) = map_option ((#) 1) (expand_rev [] cs)"
| "expand_rev (t # ts) (c # cs) =
     (if t = 1 \<or> c = t then map_option ((#) t) (expand_rev ts cs) else None)"

definition expand_shape :: "nat list \<Rightarrow> nat list \<Rightarrow> nat list option" where
  "expand_shape src count = map_option rev (expand_rev (rev src) (rev count))"

text \<open>
  The index of the array that is written to an index of the selection: along an axis
  where the array has length 1 and the selection has not, the one entry is repeated.
\<close>

fun broadcast_index :: "nat list \<Rightarrow> nat list \<Rightarrow> nat list \<Rightarrow> nat list" where
  "broadcast_index (t # ts) (c # cs) (i # idx) =
     (if t = 1 \<and> c \<noteq> 1 then 0 else i) # broadcast_index ts cs idx"
| "broadcast_index ts cs idx = idx"

definition broadcast_to :: "nat list \<Rightarrow> 'a ndarray \<Rightarrow> error + 'a ndarray" where
  "broadcast_to count a =
     (case expand_shape (shape a) count of
        None \<Rightarrow> Inl TypeError
      | Some tshape \<Rightarrow>
          Inr \<lparr>shape = count,
               elem = (\<lambda>idx. elem a
                 (replicate (length (shape a) - length count) 0
                  @ drop (length count - length (shape a)) (broadcast_index tshape count idx)))\<rparr>)"

text \<open>
  \<^verbatim>\<open>dset[start:stop, :] = img\<close> and \<^verbatim>\<open>dset[:] = img\<close>. A selection without
  elements is left alone. Otherwise the array is brought to the shape of the selection
  and its rows are written over the rows of the selection.
\<close>

definition assign_rows :: "string \<Rightarrow> int option \<Rightarrow> int option \<Rightarrow> real ndarray \<Rightarrow> step" where
  "assign_rows key start stop img w =
     (case hdf_file w key of
        None \<Rightarrow> (Some (KeyError key), w)
      | Some d \<Rightarrow>
          (case content d of
             Strings xs \<Rightarrow> (Some TypeError, w)
           | Floats rs rows \<Rightarrow>
               (case slice_bounds start stop (length rows) of
                  (lo, hi) \<Rightarrow>
                    if hi - lo = 0 \<or> 0 \<in> set rs then (None, w)
                    else
                      (case broadcast_to ((hi - lo) # rs) img of
                         Inl err \<Rightarrow> (Some err, w)
                       | Inr b \<Rightarrow>
                           (None, w\<lparr>hdf_file := (hdf_file w)(key \<mapsto>
                              d\<lparr>content := Floats rs
                                   (take lo rows @ rows_of b @ drop (lo + (hi - lo)) rows)\<rparr>)\<rparr>)))))"

text \<open>\<^verbatim>\<open>hdf_file[key].attrs[a] = v\<close>; a missing dataset raises a KeyError.\<close>

definition set_attr :: "string \<Rightarrow> string \<Rightarrow> (string \<times> string) list \<Rightarrow> step" where
  "set_attr key a v w =
     (case hdf_file w key of
        None \<Rightarrow> (Some (KeyError key), w)
      | Some d \<Rightarrow> (None, w\<lparr>hdf_file := (hdf_file w)(key \<mapsto> d\<lparr>attrs := (attrs d)(a \<mapsto> v)\<rparr>)\<rparr>))"

text \<open>
  The body of each of the four loops after the volume is prepared (lines 137 to 150, and
  the same lines of the other three loops). In the first round the dataset is created
  with the shape of the volume, free to grow along the first axis, and the volume is
  written into it; \<^verbatim>\<open>img.shape[3]\<close> needs four axes and \<^verbatim>\<open>maxshape\<close> has four entries.
  In a later round the number of rows is read, the dataset is grown by the rows of the
  volume, and the volume is written into rows \<open>row\<close> to \<open>row + num_rows\<close>. The dataset
  handle of the script is the dataset under \<open>key\<close>.
\<close>

definition write_volume :: "string \<Rightarrow> bool \<Rightarrow> real ndarray \<Rightarrow> step" where
  "write_volume key first img w =
     (case shape img of
        [] \<Rightarrow> (Some IndexError, w)
      | num_rows # rs \<Rightarrow>
          if first then
            (if length rs < 3 then (Some IndexError, w)
             else if length rs \<noteq> 3 then (Some ValueError, w)
             else run [create_dataset key (Floats rs (replicate num_rows (zero_row rs))),
                       assign_rows key None None img] w)
          else
            (case hdf_file w key of
               None \<Rightarrow> (Some (NameError key), w)
             | Some d \<Rightarrow>
                 (let row = hd (dataset_shape (content d)) in
                  run [resize_axis0 key (row + num_rows),
                       assign_rows key (Some (int row)) (Some (int (row + num_rows))) img] w)))"

text \<open>
  A loop over the indices of one split: the volume of each index is prepared by \<open>prep\<close>
  and written; \<open>first\<close> is true until a volume has been written.
\<close>

fun save_loop :: "string \<Rightarrow> (nat \<Rightarrow> error + real ndarray) \<Rightarrow> bool \<Rightarrow> nat list \<Rightarrow> step" where
  "save_loop key prep first [] w = (None, w)"
| "save_loop key prep first (idx # rest) w =
     (case prep idx of
        Inl e \<Rightarrow> (Some e, w)
      | Inr img \<Rightarrow>
          (case write_volume key first img w of
             (Some e, w') \<Rightarrow> (Some e, w')
           | (None, w') \<Rightarrow> save_loop key prep False rest w'))"

text \<open>
  The rows that a dataset with rows of shape \<open>rs\<close> holds for a volume after the volume
  was written: the rows of the volume, brought to the shape \<open>rs\<close>; rows of zeros where
  the volume has no rows or the rows have no entries, since nothing is written then.
\<close>

definition stored_rows :: "nat list \<Rightarrow> real ndarray \<Rightarrow> error + real ndarray list" where
  "stored_rows rs img =
     (if hd (shape img) = 0 \<or> 0 \<in> set rs then Inr (replicate (hd (shape img)) (zero_row rs))
      else (case broadcast_to (hd (shape img) # rs) img of
              Inl err \<Rightarrow> Inl err
            | Inr b \<Rightarrow> Inr (rows_of b)))"

subsection \<open>Preparing a volume\<close>

text \<open>\<^verbatim>\<open>os.path.join\<close> of two parts, on a POSIX system.\<close>

definition path_join :: "string \<Rightarrow> string \<Rightarrow> string" where
  "path_join a b =
     (if b \<noteq> [] \<and> hd b = CHR ''/'' then b
      else if a = [] \<or> last a = CHR ''/'' then a @ b
      else a @ ''/'' @ b)"

definition list_get :: "'a list \<Rightarrow> nat \<Rightarrow> error + 'a" where
  "list_get xs i = (if i < length xs then Inr (xs ! i) else Inl IndexError)"

text \<open>Lines 131 to 136, and 160 to 165: an image is loaded, cropped, normalized and reordered.\<close>

definition load_img :: "env \<Rightarrow> int \<Rightarrow> sample list \<Rightarrow> string \<Rightarrow> nat \<Rightarrow> error + real ndarray" where
  "load_img e crop fileIdx dataDir idx =
     ebind (list_get fileIdx idx) (\<lambda>entry.
     ebind (nib_image e (path_join dataDir (image_key entry))) (\<lambda>(dt, img).
     ebind (crop_center img crop crop crop) (\<lambda>img.
     ebind (normalize_img dt img) (\<lambda>img.
       swapaxes img 0 (- 2)))))"

text \<open>
  Lines 188 to 193, and 215 to 220: a mask is loaded, cropped, binarized and reordered,
  and gets a last axis of length one. The datasets hold floating-point numbers, and every
  entry of a mask is stored as it is.
\<close>

definition load_msk :: "env \<Rightarrow> int \<Rightarrow> sample list \<Rightarrow> string \<Rightarrow> nat \<Rightarrow> error + real ndarray" where
  "load_msk e crop fileIdx dataDir idx =
     ebind (list_get fileIdx idx) (\<lambda>entry.
     ebind (nib_label e (path_join dataDir (label_key entry))) (\<lambda>msk.
     ebind (crop_center msk crop crop crop) (\<lambda>msk.
     ebind (swapaxes (binarize msk) 0 (- 1)) (\<lambda>msk.
       expand_dims msk (- 1)))))"

subsection \<open>The conversion\<close>

text \<open>\<^verbatim>\<open>h5py.File(filename, "w")\<close> creates the file, or empties it.\<close>

definition h5py_File :: "string \<Rightarrow> step" where
  "h5py_File filename w = (None, w\<lparr>files := insert filename (files w), hdf_file := Map.empty\<rparr>)"

text \<open>
  Lines 110 to 124 of \<^verbatim>\<open>convert_raw_data_to_hdf5\<close>. Each of the five metadata
  datasets is created as a dataset of empty strings; the statement after it binds the
  name of the handle to the string of the manifest.
\<close>

definition metadata_steps :: "manifest \<Rightarrow> step list" where
  "metadata_steps json_data =
     [ create_dataset ''license'' (Strings (replicate 100 [])),
       assign_local ''license'' (licence json_data),
       create_dataset ''name'' (Strings (replicate 100 [])),
       assign_local ''dataset_name'' (name json_data),
       create_dataset ''description'' (Strings (replicate 200 [])),
       assign_local ''description'' (description json_data),
       create_dataset ''reference'' (Strings (replicate 100 [])),
       assign_local ''reference'' (reference json_data),
       create_dataset ''release'' (Strings (replicate 50 [])),
       assign_local ''release'' (release json_data)]"

text \<open>Lines 126 to 237: the four loops. \<open>crop\<close> is \<^verbatim>\<open>args.resize\<close>.\<close>

definition volume_steps ::
  "env \<Rightarrow> int \<Rightarrow> nat list \<Rightarrow> nat list \<Rightarrow> sample list \<Rightarrow> string \<Rightarrow> string \<Rightarrow> manifest \<Rightarrow> step list" where
  "volume_steps e crop trainIdx validateIdx fileIdx filename dataDir json_data =
     [ print ''Step 1 of 4. Save training set images.'',
       save_loop ''imgs_train'' (load_img e crop fileIdx dataDir) True trainIdx,
       set_attr ''imgs_train'' ''modalities'' (modalities json_data),
       print ''Step 2 of 4. Save validation set images.'',
       save_loop ''imgs_test'' (load_img e crop fileIdx dataDir) True validateIdx,
       set_attr ''imgs_test'' ''modalities'' (modalities json_data),
       print ''Step 3 of 4. Save training set masks.'',
       save_loop ''msks_train'' (load_msk e crop fileIdx dataDir) True trainIdx,
       print ''Step 4 of 4. Save validation set masks.'',
       save_loop ''msks_test'' (load_msk e crop fileIdx dataDir) True validateIdx,
       print ''Finished processing.'',
       print (''HDF5 saved to '' @ filename)]"

text \<open>The statements of \<^verbatim>\<open>convert_raw_data_to_hdf5\<close>, from the first to the last.\<close>

definition conversion_steps ::
  "env \<Rightarrow> int \<Rightarrow> nat list \<Rightarrow> nat list \<Rightarrow> sample list \<Rightarrow> string \<Rightarrow> string \<Rightarrow> manifest \<Rightarrow> step list" where
  "conversion_steps e crop trainIdx validateIdx fileIdx filename dataDir json_data =
     h5py_File filename # metadata_steps json_data
       @ volume_steps e crop trainIdx validateIdx fileIdx filename dataDir json_data"

definition convert_raw_data_to_hdf5 ::
  "env \<Rightarrow> int \<Rightarrow> nat list \<Rightarrow> nat list \<Rightarrow> sample list \<Rightarrow> string \<Rightarrow> string \<Rightarrow> manifest \<Rightarrow> step" where
  "convert_raw_data_to_hdf5 e crop trainIdx validateIdx fileIdx filename dataDir json_data =
     run (conversion_steps e crop trainIdx validateIdx fileIdx filename dataDir json_data)"

text \<open>
  The rows of a dataset of numbers, and what it means that a later world has kept the
  rows of an earlier one: every dataset of numbers is still there, with rows of the same
  shape, and its rows of the earlier world are the first rows of the later world.
\<close>

definition dataset_rows :: "world \<Rightarrow> string \<Rightarrow> real ndarray list" where
  "dataset_rows w key =
     (case hdf_file w key of
        None \<Rightarrow> []
      | Some d \<Rightarrow> (case content d of Strings xs \<Rightarrow> [] | Floats rs rows \<Rightarrow> rows))"

definition rows_kept :: "world \<Rightarrow> world \<Rightarrow> bool" where
  "rows_kept w w' \<longleftrightarrow>
     (\<forall>key d rs rows. hdf_file w key = Some d \<and> content d = Floats rs rows \<longrightarrow>
        (\<exists>d' more. hdf_file w' key = Some d' \<and> content d' = Floats rs (rows @ more)))"

text \<open>The container as the metadata statements leave it.\<close>

definition metadata_map :: "string \<rightharpoonup> dataset" where
  "metadata_map =
     [''license'' \<mapsto> \<lparr>content = Strings (replicate 100 []), attrs = Map.empty\<rparr>,
      ''name'' \<mapsto> \<lparr>content = Strings (replicate 100 []), attrs = Map.empty\<rparr>,
      ''description'' \<mapsto> \<lparr>content = Strings (replicate 200 []), attrs = Map.empty\<rparr>,
      ''reference'' \<mapsto> \<lparr>content = Strings (replicate 100 []), attrs = Map.empty\<rparr>,
      ''release'' \<mapsto> \<lparr>content = Strings (replicate 50 []), attrs = Map.empty\<rparr>]"

subsection \<open>The script\<close>

text \<open>The decimal digits of an integer, as \<^verbatim>\<open>format\<close> writes them.\<close>

fun digits :: "nat \<Rightarrow> string" where
  "digits n =
     (if n < 10 then [''0123456789'' ! n]
      else digits (n div 10) @ [''0123456789'' ! (n mod 10)])"

definition str_int :: "int \<Rightarrow> string" where
  "str_int i = (if i < 0 then CHR ''-'' # digits (nat (- i)) else digits (nat i))"

text \<open>
  \<^verbatim>\<open>os.makedirs\<close> raises an OSError when the path exists and when the directory cannot
  be created. Lines 249 to 253 of the script let the error pass when the directory is
  there after all.
\<close>

definition makedirs :: "env \<Rightarrow> string \<Rightarrow> step" where
  "makedirs e path w =
     (if path \<in> dirs w \<or> path \<in> files w then (Some (OSError path), w)
      else if mkdir_ok e path then (None, w\<lparr>dirs := insert path (dirs w)\<rparr>)
      else (Some (OSError path), w))"

definition make_save_dir :: "env \<Rightarrow> string \<Rightarrow> step" where
  "make_save_dir e save_dir w =
     (case makedirs e save_dir w of
        (Some (OSError p), w') \<Rightarrow>
          if save_dir \<notin> dirs w' then (Some (OSError p), w') else (None, w')
      | r \<Rightarrow> r)"

definition os_remove :: "string \<Rightarrow> step" where
  "os_remove path w =
     (if path \<in> files w then (None, w\<lparr>files := files w - {path}\<rparr>)
      else (Some (OSError path), w))"

text \<open>Lines 257 to 259: an output file that exists is removed.\<close>

definition remove_existing :: "string \<Rightarrow> step" where
  "remove_existing filename w =
     (if filename \<in> files w \<or> filename \<in> dirs w
      then run [print (''Removing existing data file: '' @ filename), os_remove filename] w
      else (None, w))"

text \<open>
  Lines 271 to 276. The result is the binding of \<^verbatim>\<open>experiment_data\<close> after the
  \<^verbatim>\<open>try\<close> statement: the manifest when the file was read, and no binding when opening
  or reading it raised an OSError (\<^verbatim>\<open>IOError\<close> is the same class), which the handler
  answers with a printed line and nothing else. Any other exception leaves the script.
\<close>

definition load_manifest :: "env \<Rightarrow> string \<Rightarrow> world \<Rightarrow> (error + manifest option) \<times> world" where
  "load_manifest e json_filename w =
     (case read_json e json_filename of
        Inr data \<Rightarrow> (Inr (Some data), w)
      | Inl (OSError p) \<Rightarrow>
          (Inr None,
           snd (print (''File '' @ json_filename @
                  '' doesn't exist. It should be part of the Decathlon directory'') w))
      | Inl err \<Rightarrow> (Inl err, w))"

text \<open>
  Lines 278 to 306: the summary of the manifest is printed, the indices are split and
  the conversion runs. Reading \<^verbatim>\<open>experiment_data\<close> when the name is not bound raises
  a NameError.
\<close>

definition main_tail :: "env \<Rightarrow> args \<Rightarrow> string \<Rightarrow> manifest option \<Rightarrow> step" where
  "main_tail e a filename experiment_data w =
     (case experiment_data of
        None \<Rightarrow> (Some (NameError ''experiment_data''), w)
      | Some data \<Rightarrow>
          run [
            print (''Dataset name =  '' @ name data),
            print (description data),
            print (''Dataset release:  '' @ release data),
            print (''Dataset reference:  '' @ reference data),
            print (''Dataset license:  '' @ licence data),
            print (replicate 30 CHR ''=''),
            print (replicate 30 CHR ''=''),
            (\<lambda>w. case splitter (draws e) (numTraining data) (split a) of
                   Inl err \<Rightarrow> (Some err, w)
                 | Inr (trainList, validateList) \<Rightarrow>
                     convert_raw_data_to_hdf5 e (resize a) trainList validateList
                       (training data) filename (data_path a) data w)] w)"

definition main :: "env \<Rightarrow> args \<Rightarrow> step" where
  "main e a w =
     (let save_dir = path_join (save_path a) (str_int (resize a) @ ''x'' @ str_int (resize a) @ ''/'');
          filename = path_join save_dir (output_filename a);
          json_filename = path_join (data_path a) ''dataset.json''
      in case run [
                print (''Converting Decathlon raw Nifti data files to single '' @
                       ''training and validation HDF5 data file.''),
                (\<lambda>w. (None, w\<lparr>console := console w @ [Namespace a]\<rparr>)),
                make_save_dir e save_dir,
                remove_existing filename] w of
           (Some err, w1) \<Rightarrow> (Some err, w1)
         | (None, w1) \<Rightarrow>
             (case load_manifest e json_filename w1 of
                (Inl err, w2) \<Rightarrow> (Some err, w2)
              | (Inr experiment_data, w2) \<Rightarrow> main_tail e a filename experiment_data w2))"

subsection \<open>A small data set\<close>

text \<open>
  Two samples, each a floating-point image of two voxels with one channel and a mask of
  two voxels, in a directory \<^verbatim>\<open>data\<close> with its manifest. The first pseudo-random draw is 0.1 and
  every later one is 0.9. The crop size is 2, and the world starts with no directory, no
  file and an empty console.
\<close>

definition example_image :: "real ndarray" where
  "example_image = \<lparr>shape = [2, 1, 1, 1], elem = (\<lambda>idx. if idx = [0, 0, 0, 0] then 0 else 2)\<rparr>"

definition example_label :: "real ndarray" where
  "example_label = \<lparr>shape = [2, 1, 1], elem = (\<lambda>idx. if idx = [0, 0, 0] then 0 else 3)\<rparr>"

definition example_manifest :: manifest where
  "example_manifest =
     \<lparr>name = ''BRATS'', description = ''Gliomas segmentation'',
      licence = ''CC-BY-SA 4.0'', reference = ''https://www.med.upenn.edu/sbia/brats2017.html'',
      release = ''2.0 04/05/2018'', modalities = [(''0'', ''FLAIR'')], numTraining = 2,
      training = [\<lparr>image_key = ''./imagesTr/BRATS_001.nii.gz'',
                   label_key = ''./labelsTr/BRATS_001.nii.gz''\<rparr>,
                  \<lparr>image_key = ''./imagesTr/BRATS_002.nii.gz'',
                   label_key = ''./labelsTr/BRATS_002.nii.gz''\<rparr>]\<rparr>"

definition example_env :: env where
  "example_env =
     \<lparr>read_json = (\<lambda>p. if p = ''data/dataset.json'' then Inr example_manifest
                        else Inl (OSError p)),
      nib_image = (\<lambda>p. if p = ''data/./imagesTr/BRATS_001.nii.gz''
                           \<or> p = ''data/./imagesTr/BRATS_002.nii.gz''
                        then Inr (Floating, example_image) else Inl (OSError p)),
      nib_label = (\<lambda>p. if p = ''data/./labelsTr/BRATS_001.nii.gz''
                           \<or> p = ''data/./labelsTr/BRATS_002.nii.gz''
                        then Inr example_label else Inl (OSError p)),
      draws = (\<lambda>i. if i = 0 then 1 / 10 else 9 / 10),
      mkdir_ok = (\<lambda>p. True)\<rparr>"

definition example_args :: "string \<Rightarrow> real \<Rightarrow> args" where
  "example_args dir ratio =
     \<lparr>data_path = dir, save_path = ''out'', output_filename = ''decathlon_brats.h5'',
      resize = 2, split = ratio\<rparr>"

definition empty_world :: world where
  "empty_world = \<lparr>dirs = {}, files = {}, hdf_file = Map.empty, console = []\<rparr>"

text \<open>
  A data set of four samples, with two different images and two different masks, and a
  generator whose draws put the first and the last sample into the training set.
\<close>

definition second_image :: "real ndarray" where
  "second_image = \<lparr>shape = [2, 1, 1, 1], elem = (\<lambda>idx. if idx = [0, 0, 0, 0] then 2 else 0)\<rparr>"

definition second_label :: "real ndarray" where
  "second_label = \<lparr>shape = [2, 1, 1], elem = (\<lambda>idx. if idx = [0, 0, 0] then 3 else 0)\<rparr>"

definition four_manifest :: manifest where
  "four_manifest =
     \<lparr>name = ''BRATS'', description = ''Gliomas segmentation'',
      licence = ''CC-BY-SA 4.0'', reference = ''https://www.med.upenn.edu/sbia/brats2017.html'',
      release = ''2.0 04/05/2018'', modalities = [(''0'', ''FLAIR'')], numTraining = 4,
      training = [\<lparr>image_key = ''./imagesTr/BRATS_001.nii.gz'',
                   label_key = ''./labelsTr/BRATS_001.nii.gz''\<rparr>,
                  \<lparr>image_key = ''./imagesTr/BRATS_002.nii.gz'',
                   label_key = ''./labelsTr/BRATS_002.nii.gz''\<rparr>,
                  \<lparr>image_key = ''./imagesTr/BRATS_003.nii.gz'',
                   label_key = ''./labelsTr/BRATS_003.nii.gz''\<rparr>,
                  \<lparr>image_key = ''./imagesTr/BRATS_004.nii.gz'',
                   label_key = ''./labelsTr/BRATS_004.nii.gz''\<rparr>]\<rparr>"

definition four_env :: env where
  "four_env =
     \<lparr>read_json = (\<lambda>p. if p = ''data/dataset.json'' then Inr four_manifest
                        else Inl (OSError p)),
      nib_image = (\<lambda>p. if p = ''data/./imagesTr/BRATS_001.nii.gz''
                           \<or> p = ''data/./imagesTr/BRATS_003.nii.gz''
                        then Inr (Floating, example_image)
                        else if p = ''data/./imagesTr/BRATS_002.nii.gz''
                           \<or> p = ''data/./imagesTr/BRATS_004.nii.gz''
                        then Inr (Floating, second_image) else Inl (OSError p)),
      nib_label = (\<lambda>p. if p = ''data/./labelsTr/BRATS_001.nii.gz''
                           \<or> p = ''data/./labelsTr/BRATS_003.nii.gz''
                        then Inr example_label
                        else if p = ''data/./labelsTr/BRATS_002.nii.gz''
                           \<or> p = ''data/./labelsTr/BRATS_004.nii.gz''
                        then Inr second_label else Inl (OSError p)),
      draws = (\<lambda>i. if i = 0 \<or> i = 3 then 1 / 10 else 9 / 10),
      mkdir_ok = (\<lambda>p. True)\<rparr>"

section \<open>Properties\<close>

lemma mask_select_upt:
  "mask_select [0..<n] (map p (map rnd [0..<n])) = filter (\<lambda>i. p (rnd i)) [0..<n]"
proof -
  have "zip [0..<n] (map p (map rnd [0..<n])) = map (\<lambda>i. (i, p (rnd i))) [0..<n]"
    by (simp add: zip_map2 zip_same_conv_map)
  then show ?thesis
    by (simp add: mask_select_def filter_map comp_def)
qed

lemma splitter_Inr:
  assumes "splitter rnd n ratio = Inr (tr, va)"
  shows "tr = filter (\<lambda>i. rnd i < ratio) [0..<nat n]"
    and "va = filter (\<lambda>i. \<not> rnd i < ratio) [0..<nat n]"
  using assms mask_select_upt [of "nat n" "\<lambda>r. r < ratio" rnd]
    mask_select_upt [of "nat n" "\<lambda>r. r \<ge> ratio" rnd]
  by (auto simp: splitter_def Let_def not_less split: if_splits)

text \<open>
  C1. For every positive n and every split ratio strictly between 0 and 1 the
  splitter returns two index lists; the indices of the two lists together are exactly
  the indices below n, and no index is in both lists.
\<close>

theorem splitter_partition:
  assumes "0 < n" and "0 < ratio" and "ratio < 1"
  shows "\<exists>train validate. splitter rnd n ratio = Inr (train, validate)
           \<and> set train \<union> set validate = {0..<nat n}
           \<and> set train \<inter> set validate = {}"
proof -
  obtain tr va where r: "splitter rnd n ratio = Inr (tr, va)"
    using assms(1) by (auto simp: splitter_def Let_def)
  from splitter_Inr [OF r] have "set tr \<union> set va = {0..<nat n}"
    and "set tr \<inter> set va = {}"
    by auto
  with r show ?thesis by blast
qed

theorem splitter_partition_witness:
  "(0::int) < 3 \<and> (0::real) < 1/2 \<and> (1/2::real) < 1
   \<and> (\<exists>train validate.
         splitter (\<lambda>i. if i = 1 then 3/4 else 1/4) 3 (1/2) = Inr (train, validate)
         \<and> set train \<union> set validate = {0..<nat 3}
         \<and> set train \<inter> set validate = {})"
  using splitter_partition [of 3 "1/2" "\<lambda>i. if i = 1 then 3/4 else 1/4"] by simp

subsection \<open>The centre crop\<close>

lemma shift_index_zeros: "shift_index (replicate k 0) idx = idx"
proof (induction k arbitrary: idx)
  case 0 then show ?case by simp
next
  case (Suc k) then show ?case by (cases idx) simp_all
qed

lemma slice_index_nonneg: "0 \<le> i \<Longrightarrow> slice_index i n = min (nat i) n"
  by (auto simp add: slice_index_def Let_def min_def)

lemma slice_index_neg: "i < 0 \<Longrightarrow> slice_index i n = nat (i + int n)"
  by (simp add: slice_index_def Let_def)

lemma win_lo_nonneg:
  assumes "0 \<le> s"
  shows "win_lo n s = (if s \<le> int n then nat (int n div 2 - s div 2) else 0)"
proof (cases "s \<le> int n")
  case True
  then have "s div 2 \<le> int n div 2" by (rule zdiv_mono1) simp
  moreover have "int n div 2 \<le> int n" by simp
  moreover have "0 \<le> s div 2" using assms by simp
  ultimately have "max (int n div 2 - s div 2) 0 = int n div 2 - s div 2"
    and "nat (int n div 2 - s div 2) \<le> n"
    by linarith+
  with True show ?thesis by (simp add: win_lo_def slice_index_nonneg)
next
  case False
  then have "int n div 2 \<le> s div 2" by (intro zdiv_mono1) simp_all
  then have "max (int n div 2 - s div 2) 0 = 0" by linarith
  with False show ?thesis by (simp add: win_lo_def slice_index_nonneg)
qed

lemma win_hi_nonneg:
  assumes "0 \<le> s"
  shows "win_hi n s = (if s \<le> int n then nat (int n div 2 - s div 2 + s) else n)"
proof (cases "s \<le> int n")
  case True
  then have le: "s div 2 \<le> int n div 2" by (rule zdiv_mono1) simp
  have "s - s div 2 \<le> int n - int n div 2" using True by presburger
  then have up: "int n div 2 - s div 2 + s \<le> int n" by linarith
  from le have "max (int n div 2 - s div 2) 0 = int n div 2 - s div 2" by linarith
  moreover from up have "min (int n div 2 - s div 2 + s) (int n) = int n div 2 - s div 2 + s"
    by linarith
  moreover have "0 \<le> int n div 2 - s div 2 + s" using le assms by linarith
  moreover have "nat (int n div 2 - s div 2 + s) \<le> n" using up by linarith
  ultimately show ?thesis using True by (simp add: win_hi_def slice_index_nonneg)
next
  case False
  then have "int n div 2 \<le> s div 2" by (intro zdiv_mono1) simp_all
  then have "max (int n div 2 - s div 2) 0 = 0" by linarith
  moreover have "min s (int n) = int n" using False by linarith
  ultimately show ?thesis using False by (simp add: win_hi_def slice_index_nonneg)
qed

lemma win_neg:
  assumes "s < 0"
  shows "win_hi n s \<le> win_lo n s"
proof -
  define a where "a = int n div 2 - s div 2"
  have s2: "s div 2 < 0" "s \<le> s div 2" "s div 2 + s div 2 \<le> s" using assms by presburger+
  have n2: "0 \<le> int n div 2" "int n div 2 + int n div 2 \<le> int n" by presburger+
  have a0: "0 < a" using s2 n2 unfolding a_def by linarith
  then have lo: "win_lo n s = min (nat a) n"
    by (simp add: win_lo_def a_def [symmetric] slice_index_nonneg max_def)
  have hi: "win_hi n s = slice_index (min (a + s) (int n)) n"
    using a0 by (simp add: win_hi_def a_def [symmetric] max_def)
  have as: "a + s < a" using assms by simp
  show ?thesis
  proof (cases "0 \<le> a + s")
    case True
    then have "win_hi n s = min (nat (min (a + s) (int n))) n"
      by (simp add: hi slice_index_nonneg)
    moreover have "nat (min (a + s) (int n)) \<le> nat a" using as by linarith
    ultimately show ?thesis using lo by linarith
  next
    case False
    then have m: "min (a + s) (int n) = a + s" by linarith
    have "win_hi n s = nat (a + s + int n)"
      using False by (simp add: hi m slice_index_neg)
    moreover have "a + s + int n \<le> a" "a + s + int n \<le> int n"
      using False s2 n2 unfolding a_def by linarith+
    ultimately show ?thesis using lo by linarith
  qed
qed

lemma crop_center_eq:
  assumes "shape img = [x, y, z] @ cs" and "length cs \<le> 1"
  shows "crop_center img cropx cropy cropz =
    Inr \<lparr>shape = [win_hi x cropx - win_lo x cropx, win_hi y cropy - win_lo y cropy,
                  win_hi z cropz - win_lo z cropz] @ cs,
         elem = (\<lambda>idx. elem img (shift_index [win_lo x cropx, win_lo y cropy, win_lo z cropz] idx))\<rparr>"
proof (cases cs)
  case Nil
  with assms show ?thesis
    by (simp add: crop_center_def slice_xyz_def win_lo_def win_hi_def Let_def)
next
  case (Cons c cs')
  with assms have "cs = [c]" by simp
  with assms show ?thesis
    by (simp add: crop_center_def slice_xyz_def win_lo_def win_hi_def Let_def)
qed

lemma crop_center_Inr_shape:
  assumes "crop_center img cropx cropy cropz = Inr out"
  shows "\<exists>x y z cs. shape img = [x, y, z] @ cs \<and> length cs \<le> 1"
proof -
  have "unpack_shape (shape img) \<noteq> Inl ValueError"
    using assms by (auto simp: crop_center_def)
  then show ?thesis
    by (cases "shape img" rule: unpack_shape.cases) simp_all
qed

lemma centred_window_win:
  assumes "0 \<le> s"
  shows "centred_window n s (win_lo n s) (win_hi n s - win_lo n s)"
proof (cases "s \<le> int n")
  case True
  define d where "d = int n div 2 - s div 2"
  have lo: "win_lo n s = nat d" and hi: "win_hi n s = nat (d + s)"
    using assms True by (simp_all add: win_lo_nonneg win_hi_nonneg d_def)
  have "s div 2 \<le> int n div 2" using True by (rule zdiv_mono1) simp
  then have d0: "0 \<le> d" by (simp add: d_def)
  have "s - s div 2 \<le> int n - int n div 2" using True by presburger
  then have up: "d + s \<le> int n" unfolding d_def by linarith
  have "\<bar>2 * (int n div 2) - int n + (s - 2 * (s div 2))\<bar> \<le> 1" by presburger
  then have bal: "\<bar>d - (int n - (d + s))\<bar> \<le> 1" unfolding d_def by linarith
  have len: "nat (d + s) - nat d = nat s" using d0 assms by linarith
  have sum: "nat d + nat s = nat (d + s)" using d0 assms by linarith
  have right: "int (n - nat (d + s)) = int n - (d + s)" using up d0 assms by linarith
  show ?thesis
    unfolding centred_window_def lo hi len sum right
    using True assms d0 up bal by simp
next
  case False
  with assms have "win_lo n s = 0" and "win_hi n s = n"
    by (simp_all add: win_lo_nonneg win_hi_nonneg)
  with False show ?thesis
    by (simp add: centred_window_def)
qed

lemma window_idem:
  "win_lo (win_hi n s - win_lo n s) s = 0 \<and>
   win_hi (win_hi n s - win_lo n s) s = win_hi n s - win_lo n s"
proof (cases "0 \<le> s")
  case True
  define l where "l = win_hi n s - win_lo n s"
  have "centred_window n s (win_lo n s) l"
    unfolding l_def using True by (rule centred_window_win)
  then have "int l \<le> s"
    by (auto simp: centred_window_def split: if_splits)
  then have "win_lo l s = 0 \<and> win_hi l s = l"
    using True by (auto simp: win_lo_nonneg win_hi_nonneg)
  then show ?thesis by (simp add: l_def)
next
  case False
  then have "win_hi n s - win_lo n s = 0"
    using win_neg [of s n] by simp
  moreover have "win_lo 0 s = 0" 
    using False by (simp add: win_lo_def slice_index_def Let_def)
  moreover have "win_hi 0 s = 0"
    using False by (simp add: win_hi_def slice_index_def Let_def)
  ultimately show ?thesis by simp
qed

text \<open>
  C4. A volume of three spatial axes, with or without a channel axis, is cropped with
  crop sizes that are not negative. On each spatial axis the crop keeps a window of the
  axis: exactly the crop size, with left and right trimmed amounts that differ by at most
  one, when the axis is at least as long as the crop size, and the whole axis when it is
  shorter. An entry of the result is the entry of the volume at the index moved by the
  three window offsets, so the channel index and the channel axis are as they were.
\<close>

theorem crop_center_window:
  assumes "shape img = [x, y, z] @ cs" and "length cs \<le> 1"
    and "0 \<le> cropx" and "0 \<le> cropy" and "0 \<le> cropz"
  shows "\<exists>ox oy oz lx ly lz.
           crop_center img cropx cropy cropz =
             Inr \<lparr>shape = [lx, ly, lz] @ cs,
                  elem = (\<lambda>idx. elem img (shift_index [ox, oy, oz] idx))\<rparr>
           \<and> centred_window x cropx ox lx
           \<and> centred_window y cropy oy ly
           \<and> centred_window z cropz oz lz"
  using crop_center_eq [OF assms(1,2)] centred_window_win [OF assms(3)]
    centred_window_win [OF assms(4)] centred_window_win [OF assms(5)]
  by blast

theorem crop_center_window_witness:
  "shape \<lparr>shape = [5, 4, 2, 2], elem = (\<lambda>idx. 0::nat)\<rparr> = [5, 4, 2] @ [2]
   \<and> length [2::nat] \<le> 1 \<and> (0::int) \<le> 3
   \<and> (\<exists>ox oy oz lx ly lz.
          crop_center \<lparr>shape = [5, 4, 2, 2], elem = (\<lambda>idx. 0::nat)\<rparr> 3 3 3 =
            Inr \<lparr>shape = [lx, ly, lz] @ [2],
                 elem = (\<lambda>idx. elem \<lparr>shape = [5, 4, 2, 2], elem = (\<lambda>idx. 0::nat)\<rparr>
                                  (shift_index [ox, oy, oz] idx))\<rparr>
          \<and> centred_window 5 3 ox lx
          \<and> centred_window 4 3 oy ly
          \<and> centred_window 2 3 oz lz)"
  using crop_center_window [of "\<lparr>shape = [5, 4, 2, 2], elem = (\<lambda>idx. 0::nat)\<rparr>" 5 4 2 "[2]" 3 3 3]
  by simp

text \<open>
  C9. The centre crop is idempotent: cropping the result of a crop again, with the same
  three crop sizes, returns it unchanged.
\<close>

theorem crop_center_idempotent:
  assumes "crop_center img cropx cropy cropz = Inr out"
  shows "crop_center out cropx cropy cropz = Inr out"
proof -
  obtain x y z cs where sh: "shape img = [x, y, z] @ cs" and cs: "length cs \<le> 1"
    using crop_center_Inr_shape [OF assms] by blast
  define lx where "lx = win_hi x cropx - win_lo x cropx"
  define ly where "ly = win_hi y cropy - win_lo y cropy"
  define lz where "lz = win_hi z cropz - win_lo z cropz"
  from crop_center_eq [OF sh cs, of cropx cropy cropz] assms
  have out: "out = \<lparr>shape = [lx, ly, lz] @ cs,
      elem = (\<lambda>idx. elem img (shift_index [win_lo x cropx, win_lo y cropy, win_lo z cropz] idx))\<rparr>"
    by (simp add: lx_def ly_def lz_def)
  then have sh': "shape out = [lx, ly, lz] @ cs" by simp
  have "crop_center out cropx cropy cropz =
      Inr \<lparr>shape = [lx, ly, lz] @ cs, elem = (\<lambda>idx. elem out (shift_index [0, 0, 0] idx))\<rparr>"
    using crop_center_eq [OF sh' cs, of cropx cropy cropz]
      window_idem [of x cropx] window_idem [of y cropy] window_idem [of z cropz]
    by (simp add: lx_def ly_def lz_def)
  moreover have "shift_index [0, 0, 0] idx = idx" for idx
    using shift_index_zeros [of 3 idx] by (simp add: numeral_3_eq_3)
  ultimately show ?thesis using sh' by simp
qed

theorem crop_center_idempotent_witness:
  "\<exists>out. crop_center \<lparr>shape = [5, 4, 2, 2], elem = (\<lambda>idx. 0::nat)\<rparr> 3 3 3 = Inr out
         \<and> crop_center out 3 3 3 = Inr out"
proof -
  obtain out where "crop_center \<lparr>shape = [5, 4, 2, 2], elem = (\<lambda>idx. 0::nat)\<rparr> 3 3 3 = Inr out"
    by (simp add: crop_center_def)
  then show ?thesis using crop_center_idempotent by blast
qed

subsection \<open>Intensity normalization\<close>

lemma ndindex_length: "idx \<in> set (ndindex sh) \<Longrightarrow> length idx = length sh"
  by (induction sh arbitrary: idx) auto

lemma shape_normalize_channel [simp]: "shape (normalize_channel dt a ch) = shape a"
  by (simp add: normalize_channel_def Let_def)

lemma select_channel_other:
  assumes "3 \<le> length (shape a)" and "ch' \<noteq> ch"
  shows "ravel (select_channel (normalize_channel dt a ch) ch') = ravel (select_channel a ch')"
proof -
  have "3 \<le> length idx" if "idx \<in> set (ndindex (take 3 (shape a) @ drop 4 (shape a)))" for idx
    using ndindex_length [OF that] assms(1) by simp
  then have "(take 3 idx @ ch' # drop 3 idx) ! 3 = ch'"
    if "idx \<in> set (ndindex (take 3 (shape a) @ drop 4 (shape a)))" for idx
    using that assms(1) by (simp add: nth_append)
  then show ?thesis using assms(2)
    by (simp add: ravel_def select_channel_def normalize_channel_def Let_def)
qed

lemma select_channel_same:
  assumes "3 \<le> length (shape a)"
  shows "ravel (select_channel (normalize_channel dt a ch) ch) =
         map (\<lambda>v. cast dt ((v - mean (ravel (select_channel a ch)))
                            / std (ravel (select_channel a ch))))
           (ravel (select_channel a ch))"
proof -
  have len: "3 \<le> length idx" if "idx \<in> set (ndindex (take 3 (shape a) @ drop 4 (shape a)))" for idx
    using ndindex_length [OF that] assms(1) by simp
  have "elem (normalize_channel dt a ch) (take 3 idx @ ch # drop 3 idx) =
      cast dt ((elem a (take 3 idx @ ch # drop 3 idx) - mean (ravel (select_channel a ch)))
        / std (ravel (select_channel a ch)))"
    if "idx \<in> set (ndindex (take 3 (shape a) @ drop 4 (shape a)))" for idx
  proof -
    from len [OF that] have "3 < length (take 3 idx @ ch # drop 3 idx)"
      and "(take 3 idx @ ch # drop 3 idx) ! 3 = ch"
      by (simp_all add: nth_append)
    with len [OF that] show ?thesis
      unfolding normalize_channel_def Let_def by simp
  qed
  then show ?thesis
    by (simp add: ravel_def select_channel_def comp_def)
qed

lemma fold_normalize_shape [simp]:
  "shape (fold (\<lambda>channel a. normalize_channel dt a channel) chs a) = shape a"
  by (induction chs arbitrary: a) simp_all

lemma fold_normalize_other:
  assumes "3 \<le> length (shape a)" and "ch \<notin> set chs"
  shows "ravel (select_channel (fold (\<lambda>channel a. normalize_channel dt a channel) chs a) ch)
         = ravel (select_channel a ch)"
  using assms
proof (induction chs arbitrary: a)
  case Nil
  then show ?case by simp
next
  case (Cons c chs)
  then show ?case by (simp add: select_channel_other)
qed

lemma fold_normalize_same:
  assumes "3 \<le> length (shape a)" and "distinct chs" and "ch \<in> set chs"
  shows "ravel (select_channel (fold (\<lambda>channel a. normalize_channel dt a channel) chs a) ch)
         = map (\<lambda>v. cast dt ((v - mean (ravel (select_channel a ch)))
                              / std (ravel (select_channel a ch))))
             (ravel (select_channel a ch))"
  using assms
proof (induction chs arbitrary: a)
  case Nil
  then show ?case by simp
next
  case (Cons c chs)
  show ?case
  proof (cases "c = ch")
    case True
    with Cons.prems show ?thesis
      by (simp add: fold_normalize_other select_channel_same)
  next
    case False
    with Cons.prems have "ch \<in> set chs" "distinct chs" by simp_all
    with Cons.IH [of "normalize_channel dt a c"] Cons.prems(1) False show ?thesis
      by (simp add: select_channel_other)
  qed
qed

lemma sum_list_shift_scale:
  fixes vs :: "real list"
  shows "sum_list (map (\<lambda>v. (v - m) / s) vs) = (sum_list vs - real (length vs) * m) / s"
  by (induction vs) (simp_all add: add_divide_distrib diff_divide_distrib algebra_simps)

lemma sum_list_square_scale:
  fixes vs :: "real list"
  shows "sum_list (map (\<lambda>v. ((v - m) / s) ^ 2) vs) = sum_list (map (\<lambda>v. (v - m) ^ 2) vs) / s ^ 2"
  by (induction vs) (simp_all add: add_divide_distrib power_divide)

lemma mean_normalized:
  assumes "std vs \<noteq> 0"
  shows "mean (map (\<lambda>v. (v - mean vs) / std vs) vs) = 0"
proof -
  have "vs \<noteq> []" using assms by (auto simp: std_def mean_def)
  then have "sum_list vs - real (length vs) * mean vs = 0"
    by (simp add: mean_def)
  then show ?thesis
    by (simp add: mean_def [of "map _ _"] sum_list_shift_scale)
qed

lemma std_normalized:
  assumes "std vs \<noteq> 0"
  shows "std (map (\<lambda>v. (v - mean vs) / std vs) vs) = 1"
proof -
  define var where "var = mean (map (\<lambda>x. \<bar>x - mean vs\<bar> ^ 2) vs)"
  have s: "std vs = sqrt var" by (simp add: std_def var_def)
  have "0 \<le> sum_list (map (\<lambda>x. \<bar>x - mean vs\<bar> ^ 2) vs)"
    by (rule sum_list_nonneg) auto
  then have "0 \<le> var" by (simp add: var_def mean_def)
  then have sq: "(std vs) ^ 2 = var" by (simp add: s)
  have var0: "var \<noteq> 0" using assms s by auto
  have "mean (map (\<lambda>z. \<bar>z - 0\<bar> ^ 2) (map (\<lambda>v. (v - mean vs) / std vs) vs)) = var / (std vs) ^ 2"
    by (simp add: mean_def [of "map _ _"] comp_def sum_list_square_scale var_def)
  also have "\<dots> = 1" using sq var0 by simp
  finally show ?thesis
    by (simp add: std_def [of "map _ _"] mean_normalized [OF assms])
qed

text \<open>
  An image of a floating-point dtype, and a channel whose standard deviation is not
  zero: the entries of the channel in the result are the entries of the channel in the
  image, each minus the mean of that channel and divided by the standard deviation of that
  channel, so they depend on no other channel; their mean is 0 and their standard
  deviation is 1. The arithmetic is that of the real numbers.
\<close>

lemma normalize_floating_channel:
  assumes "normalize_img Floating img = Inr out"
    and "channel < shape img ! 3"
    and "std (ravel (select_channel img channel)) \<noteq> 0"
  shows "ravel (select_channel out channel) =
           map (\<lambda>v. (v - mean (ravel (select_channel img channel)))
                       / std (ravel (select_channel img channel)))
             (ravel (select_channel img channel))
         \<and> mean (ravel (select_channel out channel)) = 0
         \<and> std (ravel (select_channel out channel)) = 1
         \<and> shape out = shape img"
proof -
  from assms(1) have rank: "4 \<le> length (shape img)"
    and out: "out = fold (\<lambda>channel a. normalize_channel Floating a channel) [0..<shape img ! 3] img"
    by (auto simp: normalize_img_def split: if_splits)
  have "ravel (select_channel out channel) =
           map (\<lambda>v. cast Floating ((v - mean (ravel (select_channel img channel)))
                       / std (ravel (select_channel img channel))))
             (ravel (select_channel img channel))"
    unfolding out using rank assms(2) by (intro fold_normalize_same) simp_all
  then have "ravel (select_channel out channel) =
           map (\<lambda>v. (v - mean (ravel (select_channel img channel)))
                       / std (ravel (select_channel img channel)))
             (ravel (select_channel img channel))"
    by (simp add: cast_def)
  then show ?thesis
    using mean_normalized [OF assms(3)] std_normalized [OF assms(3)] by (simp add: out)
qed

text \<open>
  C6. An image of 16-bit integers with one channel and the five voxels 0, 0, 0, 0, 5.
  The mean of the channel is 1 and its standard deviation is 2, so the quotients are
  four times -1/2 and once 2. They are written into the integer array, which drops the
  fractions: the channel of the result is 0, 0, 0, 0, 2, with mean 2/5 and standard
  deviation 4/5, not 0 and 1.
\<close>

theorem normalize_img_int16:
  "\<exists>out. normalize_img (SignedInt 16)
            \<lparr>shape = [5, 1, 1, 1], elem = (\<lambda>idx. if idx = [4, 0, 0, 0] then 5 else 0)\<rparr> = Inr out
     \<and> ravel (select_channel
            \<lparr>shape = [5, 1, 1, 1], elem = (\<lambda>idx. if idx = [4, 0, 0, 0] then 5 else 0)\<rparr> 0)
          = [0, 0, 0, 0, 5 :: real]
     \<and> std [0, 0, 0, 0, 5] = 2
     \<and> ravel (select_channel out 0) = [0, 0, 0, 0, 2]
     \<and> mean (ravel (select_channel out 0)) = 2 / 5
     \<and> std (ravel (select_channel out 0)) = 4 / 5"
proof -
  let ?img = "\<lparr>shape = [5, 1, 1, 1], elem = (\<lambda>idx. if idx = [4, 0, 0, 0] then 5 else 0 :: real)\<rparr>"
  have up: "[0..<5] = [0, 1, 2, 3, 4]" "[0..<1] = [0]" by (simp_all add: upt_rec)
  have vs: "ravel (select_channel ?img 0) = [0, 0, 0, 0, 5]"
    by (simp add: ravel_def select_channel_def up)
  have m: "mean [0, 0, 0, 0, 5] = 1" by (simp add: mean_def)
  have s4: "sqrt 4 = 2" using real_sqrt_abs [of 2] by simp
  have s: "std [0, 0, 0, 0, 5] = 2" by (simp add: std_def m) (simp add: mean_def s4)
  have c1: "cast (SignedInt 16) (- (1 / 2)) = 0"
    by (simp add: cast_def trunc_def ceiling_eq_iff)
  have c2: "cast (SignedInt 16) 2 = 2" by (simp add: cast_def trunc_def)
  define out where "out = normalize_channel (SignedInt 16) ?img 0"
  have n: "normalize_img (SignedInt 16) ?img = Inr out"
    by (simp add: normalize_img_def out_def up)
  have "ravel (select_channel out 0) =
      map (\<lambda>v. cast (SignedInt 16) ((v - mean (ravel (select_channel ?img 0)))
                            / std (ravel (select_channel ?img 0)))) (ravel (select_channel ?img 0))"
    unfolding out_def by (rule select_channel_same) simp
  then have "ravel (select_channel out 0) =
      map (\<lambda>v. cast (SignedInt 16) ((v - mean [0, 0, 0, 0, 5]) / std [0, 0, 0, 0, 5]))
        [0, 0, 0, 0, 5]"
    unfolding vs .
  then have r: "ravel (select_channel out 0) = [0, 0, 0, 0, 2]"
    by (simp add: m s c1 c2)
  have m': "mean [0, 0, 0, 0, 2] = 2 / 5" by (simp add: mean_def)
  have s16: "sqrt (16 / 25) = 4 / 5"
    using real_sqrt_abs [of "4 / 5"] by (simp add: power2_eq_square)
  have s': "std [0, 0, 0, 0, 2] = 4 / 5"
    by (simp add: std_def m') (simp add: mean_def power2_eq_square s16)
  from n vs s r m' s' show ?thesis by auto
qed


subsection \<open>Mask binarization\<close>




subsection \<open>Growing datasets\<close>

lemma length_rows_of [simp]: "length (rows_of a) = hd (shape a)"
  by (simp add: rows_of_def)

lemma run_Cons_None:
  "run (f # fs) w = (None, w') \<longleftrightarrow> (\<exists>w1. f w = (None, w1) \<and> run fs w1 = (None, w'))"
  by (auto split: prod.splits option.splits)

lemma expand_rev_same: "expand_rev s s = Some s"
  by (induction s) simp_all

lemma expand_shape_same: "expand_shape s s = Some s"
  by (simp add: expand_shape_def expand_rev_same)

lemma broadcast_index_same: "broadcast_index s s idx = idx"
proof (induction s arbitrary: idx)
  case Nil
  show ?case by simp
next
  case (Cons c s)
  then show ?case by (cases idx) simp_all
qed

lemma broadcast_to_same: "broadcast_to (shape a) a = Inr a"
  by (simp add: broadcast_to_def expand_shape_same broadcast_index_same)

lemma broadcast_to_shape: "broadcast_to count a = Inr b \<Longrightarrow> shape b = count"
  by (auto simp: broadcast_to_def split: option.splits)

lemma stored_rows_length:
  assumes "stored_rows rs img = Inr new"
  shows "length new = hd (shape img)"
  using assms
  by (auto simp: stored_rows_def dest: broadcast_to_shape split: if_splits sum.splits)

lemma stored_rows_own:
  assumes "shape img = n # rs"
  shows "stored_rows rs img =
    Inr (if n = 0 \<or> 0 \<in> set rs then replicate n (zero_row rs) else rows_of img)"
  using assms broadcast_to_same [of img] by (simp add: stored_rows_def)

lemma resize_grow:
  assumes "hdf_file w key = Some d" and "content d = Floats rs rows"
  shows "resize_axis0 key (length rows + n) w =
    (None, w\<lparr>hdf_file := (hdf_file w)(key \<mapsto>
        d\<lparr>content := Floats rs (rows @ replicate n (zero_row rs))\<rparr>)\<rparr>)"
  using assms by (simp add: resize_axis0_def)

lemma assign_tail:
  assumes "hdf_file w key = Some d"
    and "content d = Floats rs (rows @ replicate n (zero_row rs))"
    and "hd (shape img) = n"
  shows "assign_rows key (Some (int (length rows))) (Some (int (length rows + n))) img w =
    (case stored_rows rs img of
       Inl err \<Rightarrow> (Some err, w)
     | Inr new \<Rightarrow>
         (None, w\<lparr>hdf_file := (hdf_file w)(key \<mapsto> d\<lparr>content := Floats rs (rows @ new)\<rparr>)\<rparr>))"
proof -
  have b: "slice_bounds (Some (int (length rows))) (Some (int (length rows + n)))
          (length (rows @ replicate n (zero_row rs))) = (length rows, length rows + n)"
    by (simp add: slice_bounds_def slice_index_nonneg)
  show ?thesis
  proof (cases "n = 0 \<or> 0 \<in> set rs")
    case True
    have "d\<lparr>content := Floats rs (rows @ replicate n (zero_row rs))\<rparr> = d"
      using assms(2) by simp
    then have "w\<lparr>hdf_file := (hdf_file w)(key \<mapsto>
        d\<lparr>content := Floats rs (rows @ replicate n (zero_row rs))\<rparr>)\<rparr> = w"
      using assms(1) by (simp add: map_upd_triv)
    moreover have "stored_rows rs img = Inr (replicate n (zero_row rs))"
      using True assms(3) by (auto simp: stored_rows_def)
    moreover have "assign_rows key (Some (int (length rows))) (Some (int (length rows + n))) img w
        = (None, w)"
      using True assms(1,2) b by (auto simp: assign_rows_def)
    ultimately show ?thesis by simp
  next
    case False
    then have "stored_rows rs img =
        (case broadcast_to (n # rs) img of Inl err \<Rightarrow> Inl err | Inr b \<Rightarrow> Inr (rows_of b))"
      using assms(3) by (simp add: stored_rows_def)
    moreover have "assign_rows key (Some (int (length rows))) (Some (int (length rows + n))) img w
        = (case broadcast_to (n # rs) img of
             Inl err \<Rightarrow> (Some err, w)
           | Inr b \<Rightarrow> (None, w\<lparr>hdf_file := (hdf_file w)(key \<mapsto>
                  d\<lparr>content := Floats rs (rows @ rows_of b)\<rparr>)\<rparr>))"
    proof (cases "broadcast_to (n # rs) img")
      case (Inl err)
      with False assms(1,2) b show ?thesis by (simp add: assign_rows_def)
    next
      case (Inr bb)
      from broadcast_to_shape [OF Inr] have "hd (shape bb) = n" by simp
      with Inr False assms(1,2) b show ?thesis by (simp add: assign_rows_def)
    qed
    ultimately show ?thesis by (simp split: sum.splits)
  qed
qed

text \<open>
  What a write after the first one does to a dataset of numbers: it appends rows of
  zeros and then stores the rows of the volume over them.
\<close>

lemma write_volume_next_eq:
  assumes "hdf_file w key = Some d" and "content d = Floats rs rows" and "shape img \<noteq> []"
  shows "write_volume key False img w =
    (case stored_rows rs img of
       Inl err \<Rightarrow>
         (Some err, w\<lparr>hdf_file := (hdf_file w)(key \<mapsto>
            d\<lparr>content := Floats rs (rows @ replicate (hd (shape img)) (zero_row rs))\<rparr>)\<rparr>)
     | Inr new \<Rightarrow>
         (None, w\<lparr>hdf_file := (hdf_file w)(key \<mapsto> d\<lparr>content := Floats rs (rows @ new)\<rparr>)\<rparr>))"
proof -
  obtain n sh where sh: "shape img = n # sh" using assms(3) by (cases "shape img") auto
  define w1 where "w1 = w\<lparr>hdf_file := (hdf_file w)(key \<mapsto>
        d\<lparr>content := Floats rs (rows @ replicate n (zero_row rs))\<rparr>)\<rparr>"
  have r: "resize_axis0 key (length rows + n) w = (None, w1)"
    unfolding w1_def using assms(1,2) by (rule resize_grow)
  have a: "assign_rows key (Some (int (length rows))) (Some (int (length rows + n))) img w1 =
    (case stored_rows rs img of
       Inl err \<Rightarrow> (Some err, w1)
     | Inr new \<Rightarrow>
         (None, w1\<lparr>hdf_file := (hdf_file w1)(key \<mapsto>
            (d\<lparr>content := Floats rs (rows @ replicate n (zero_row rs))\<rparr>)\<lparr>content := Floats rs (rows @ new)\<rparr>)\<rparr>))"
    using assign_tail [of w1 key "d\<lparr>content := Floats rs (rows @ replicate n (zero_row rs))\<rparr>"
        rs rows n img] sh
    by (simp add: w1_def)
  have "write_volume key False img w =
      run [resize_axis0 key (length rows + n),
           assign_rows key (Some (int (length rows))) (Some (int (length rows + n))) img] w"
    using assms(1,2) sh by (simp add: write_volume_def Let_def)
  with r a show ?thesis
    by (simp add: sh w1_def split: sum.splits)
qed

lemma write_volume_next:
  assumes "hdf_file w key = Some d" and "content d = Floats rs rows"
    and "write_volume key False img w = (None, w')"
  shows "\<exists>new. stored_rows rs img = Inr new
         \<and> w' = w\<lparr>hdf_file := (hdf_file w)(key \<mapsto> d\<lparr>content := Floats rs (rows @ new)\<rparr>)\<rparr>"
proof (cases "shape img")
  case Nil
  with assms show ?thesis by (simp add: write_volume_def)
next
  case (Cons n sh)
  then have "shape img \<noteq> []" by simp
  from write_volume_next_eq [OF assms(1,2) this] assms(3) show ?thesis
    by (cases "stored_rows rs img") simp_all
qed

lemma write_volume_first_eq:
  assumes "shape img = [n, a, b, c]" and "key \<notin> dom (hdf_file w)"
  shows "write_volume key True img w =
    (None, w\<lparr>hdf_file := (hdf_file w)(key \<mapsto>
       \<lparr>content = Floats [a, b, c]
          (if n = 0 \<or> 0 \<in> set [a, b, c] then replicate n (zero_row [a, b, c]) else rows_of img),
        attrs = Map.empty\<rparr>)\<rparr>)"
proof -
  let ?d = "\<lparr>content = Floats [a, b, c] (replicate n (zero_row [a, b, c])), attrs = Map.empty\<rparr>"
  let ?w1 = "w\<lparr>hdf_file := (hdf_file w)(key \<mapsto> ?d)\<rparr>"
  have c: "create_dataset key (Floats [a, b, c] (replicate n (zero_row [a, b, c]))) w = (None, ?w1)"
    using assms(2) by (simp add: create_dataset_def)
  have b: "slice_bounds None None (length (replicate n (zero_row [a, b, c]))) = (0, n)"
    by (simp add: slice_bounds_def)
  have "assign_rows key None None img ?w1 =
    (None, ?w1\<lparr>hdf_file := (hdf_file ?w1)(key \<mapsto>
       ?d\<lparr>content := Floats [a, b, c]
          (if n = 0 \<or> 0 \<in> set [a, b, c] then replicate n (zero_row [a, b, c]) else rows_of img)\<rparr>)\<rparr>)"
  proof (cases "n = 0 \<or> 0 \<in> set [a, b, c]")
    case True
    then have "assign_rows key None None img ?w1 = (None, ?w1)"
      using b by (auto simp: assign_rows_def)
    moreover have "?w1\<lparr>hdf_file := (hdf_file ?w1)(key \<mapsto>
       ?d\<lparr>content := Floats [a, b, c] (replicate n (zero_row [a, b, c]))\<rparr>)\<rparr> = ?w1"
      by simp
    ultimately show ?thesis using True by simp
  next
    case False
    have "broadcast_to (n # [a, b, c]) img = Inr img"
      using broadcast_to_same [of img] assms(1) by simp
    with False b assms(1) show ?thesis by (simp add: assign_rows_def)
  qed
  with c assms(1) show ?thesis by (simp add: write_volume_def)
qed

lemma write_volume_first:
  assumes "write_volume key True img w = (None, w')"
  shows "key \<notin> dom (hdf_file w)
         \<and> (\<exists>new. stored_rows (tl (shape img)) img = Inr new
              \<and> w' = w\<lparr>hdf_file := (hdf_file w)(key \<mapsto>
                   \<lparr>content = Floats (tl (shape img)) new, attrs = Map.empty\<rparr>)\<rparr>)"
proof -
  from assms obtain n a b c where sh: "shape img = [n, a, b, c]"
    by (cases "shape img" rule: unpack_shape.cases)
      (auto simp: write_volume_def split: if_splits list.splits)
  have k: "key \<notin> dom (hdf_file w)"
    using assms sh by (auto simp: write_volume_def create_dataset_def split: if_splits)
  from write_volume_first_eq [OF sh k] assms stored_rows_own [of img n "[a, b, c]"] sh k
  show ?thesis by (auto simp del: set_simps)
qed

lemma write_volume_False_cases:
  assumes "write_volume key False img w = (r, w')"
  shows "w' = w \<or> (\<exists>d rs rows more. hdf_file w key = Some d \<and> content d = Floats rs rows
            \<and> w' = w\<lparr>hdf_file := (hdf_file w)(key \<mapsto> d\<lparr>content := Floats rs (rows @ more)\<rparr>)\<rparr>)"
proof (cases "shape img")
  case Nil
  with assms show ?thesis by (simp add: write_volume_def)
next
  case (Cons n sh)
  show ?thesis
  proof (cases "hdf_file w key")
    case None
    with assms Cons show ?thesis by (simp add: write_volume_def)
  next
    case (Some d)
    show ?thesis
    proof (cases "content d")
      case (Strings xs)
      with assms Cons Some show ?thesis
        by (simp add: write_volume_def resize_axis0_def Let_def)
    next
      case (Floats rs rows)
      from Cons have "shape img \<noteq> []" by simp
      from write_volume_next_eq [OF Some Floats this] assms
      have "\<exists>more. w' = w\<lparr>hdf_file := (hdf_file w)(key \<mapsto> d\<lparr>content := Floats rs (rows @ more)\<rparr>)\<rparr>"
        by (cases "stored_rows rs img") auto
      with Some Floats show ?thesis by blast
    qed
  qed
qed

lemma write_volume_True_cases:
  assumes "write_volume key True img w = (r, w')"
  shows "w' = w \<or> (key \<notin> dom (hdf_file w) \<and> (\<exists>d'. w' = w\<lparr>hdf_file := (hdf_file w)(key \<mapsto> d')\<rparr>))"
proof (cases "\<exists>n a b c. shape img = [n, a, b, c]")
  case True
  then obtain n a b c where sh: "shape img = [n, a, b, c]" by blast
  show ?thesis
  proof (cases "key \<in> dom (hdf_file w)")
    case True
    with assms sh show ?thesis by (auto simp: write_volume_def create_dataset_def)
  next
    case False
    from write_volume_first_eq [OF sh False] assms False show ?thesis by auto
  qed
next
  case False
  with assms show ?thesis
    by (cases "shape img" rule: unpack_shape.cases)
      (auto simp: write_volume_def split: if_splits list.splits)
qed

lemma rows_kept_refl [simp]: "rows_kept w w"
  by (auto simp: rows_kept_def)

lemma rows_kept_trans: "rows_kept w1 w2 \<Longrightarrow> rows_kept w2 w3 \<Longrightarrow> rows_kept w1 w3"
  unfolding rows_kept_def
  by (metis append.assoc)

lemma write_volume_cases:
  assumes "write_volume key first img w = (r, w')"
  shows "w' = w
    \<or> (key \<notin> dom (hdf_file w) \<and> (\<exists>d'. w' = w\<lparr>hdf_file := (hdf_file w)(key \<mapsto> d')\<rparr>))
    \<or> (\<exists>d rs rows more. hdf_file w key = Some d \<and> content d = Floats rs rows
            \<and> w' = w\<lparr>hdf_file := (hdf_file w)(key \<mapsto> d\<lparr>content := Floats rs (rows @ more)\<rparr>)\<rparr>)"
proof (cases first)
  case True
  with assms write_volume_True_cases [of key img w r w'] show ?thesis by auto
next
  case False
  with assms write_volume_False_cases [of key img w r w'] show ?thesis by auto
qed

lemma rows_kept_new:
  assumes "key \<notin> dom (hdf_file w)"
  shows "rows_kept w (w\<lparr>hdf_file := (hdf_file w)(key \<mapsto> d')\<rparr>)"
  unfolding rows_kept_def
proof (intro allI impI)
  fix k d rs rows
  assume h: "hdf_file w k = Some d \<and> content d = Floats rs rows"
  with assms have "k \<noteq> key" by auto
  with h have "hdf_file (w\<lparr>hdf_file := (hdf_file w)(key \<mapsto> d')\<rparr>) k = Some d
      \<and> content d = Floats rs (rows @ [])" by simp
  then show "\<exists>d'a more. hdf_file (w\<lparr>hdf_file := (hdf_file w)(key \<mapsto> d')\<rparr>) k = Some d'a
      \<and> content d'a = Floats rs (rows @ more)" by blast
qed

lemma rows_kept_append:
  assumes "hdf_file w key = Some d" and "content d = Floats rs rows"
  shows "rows_kept w (w\<lparr>hdf_file := (hdf_file w)(key \<mapsto> d\<lparr>content := Floats rs (rows @ extra)\<rparr>)\<rparr>)"
  unfolding rows_kept_def
proof (intro allI impI)
  fix k d0 rs0 rows0
  assume h: "hdf_file w k = Some d0 \<and> content d0 = Floats rs0 rows0"
  let ?w' = "w\<lparr>hdf_file := (hdf_file w)(key \<mapsto> d\<lparr>content := Floats rs (rows @ extra)\<rparr>)\<rparr>"
  show "\<exists>d' extra'. hdf_file ?w' k = Some d' \<and> content d' = Floats rs0 (rows0 @ extra')"
  proof (cases "k = key")
    case True
    with h assms have "rs0 = rs" "rows0 = rows" by simp_all
    with True have "hdf_file ?w' k = Some (d\<lparr>content := Floats rs (rows @ extra)\<rparr>)
      \<and> content (d\<lparr>content := Floats rs (rows @ extra)\<rparr>) = Floats rs0 (rows0 @ extra)" by simp
    then show ?thesis by blast
  next
    case False
    with h have "hdf_file ?w' k = Some d0 \<and> content d0 = Floats rs0 (rows0 @ [])" by simp
    then show ?thesis by blast
  qed
qed

lemma write_volume_kept: "rows_kept w (snd (write_volume key first img w))"
proof -
  obtain r w' where eq: "write_volume key first img w = (r, w')"
    by (cases "write_volume key first img w")
  from write_volume_cases [OF eq] show ?thesis
    unfolding eq by (auto intro: rows_kept_new rows_kept_append)
qed

lemma write_volume_frame:
  assumes "k \<noteq> key"
  shows "hdf_file (snd (write_volume key first img w)) k = hdf_file w k"
proof -
  obtain r w' where eq: "write_volume key first img w = (r, w')"
    by (cases "write_volume key first img w")
  from write_volume_cases [OF eq] assms show ?thesis
    unfolding eq by auto
qed

lemma save_loop_kept: "rows_kept w (snd (save_loop key prep first idxs w))"
proof (induction idxs arbitrary: w first)
  case Nil
  show ?case by simp
next
  case (Cons idx rest)
  show ?case
  proof (cases "prep idx")
    case (Inl e)
    then show ?thesis by simp
  next
    case (Inr img)
    obtain r w1 where eq: "write_volume key first img w = (r, w1)"
      by (cases "write_volume key first img w")
    have k1: "rows_kept w w1" using write_volume_kept [of w key first img] by (simp add: eq)
    show ?thesis
    proof (cases r)
      case None
      with Inr eq k1 Cons.IH [of w1 False] show ?thesis
        by (auto intro: rows_kept_trans)
    next
      case (Some e)
      with Inr eq k1 show ?thesis by simp
    qed
  qed
qed

lemma save_loop_frame:
  assumes "k \<noteq> key"
  shows "hdf_file (snd (save_loop key prep first idxs w)) k = hdf_file w k"
proof (induction idxs arbitrary: w first)
  case Nil
  show ?case by simp
next
  case (Cons idx rest)
  show ?case
  proof (cases "prep idx")
    case (Inl e)
    then show ?thesis by simp
  next
    case (Inr img)
    obtain r w1 where eq: "write_volume key first img w = (r, w1)"
      by (cases "write_volume key first img w")
    have k1: "hdf_file w1 k = hdf_file w k"
      using write_volume_frame [OF assms, of first img w] by (simp add: eq)
    show ?thesis
    proof (cases r)
      case None
      with Inr eq k1 Cons.IH [of False w1] show ?thesis by simp
    next
      case (Some e)
      with Inr eq k1 show ?thesis by simp
    qed
  qed
qed


lemma rows_kept_same:
  assumes "hdf_file w' = hdf_file w"
  shows "rows_kept w w'"
  using assms unfolding rows_kept_def by (metis append_Nil2)

lemma print_kept: "rows_kept w (snd (print msg w))"
  by (rule rows_kept_same) (simp add: print_def)

lemma assign_local_kept: "rows_kept w (snd (assign_local var v w))"
  by (simp add: assign_local_def)

lemma create_dataset_kept: "rows_kept w (snd (create_dataset key c w))"
  by (simp add: create_dataset_def rows_kept_new)

lemma set_attr_kept: "rows_kept w (snd (set_attr key a v w))"
proof (cases "hdf_file w key")
  case None
  then show ?thesis by (simp add: set_attr_def)
next
  case (Some d)
  have "rows_kept w (w\<lparr>hdf_file := (hdf_file w)(key \<mapsto> d\<lparr>attrs := (attrs d)(a \<mapsto> v)\<rparr>)\<rparr>)"
    unfolding rows_kept_def
  proof (intro allI impI)
    fix k d0 rs0 rows0
    assume h: "hdf_file w k = Some d0 \<and> content d0 = Floats rs0 rows0"
    let ?w' = "w\<lparr>hdf_file := (hdf_file w)(key \<mapsto> d\<lparr>attrs := (attrs d)(a \<mapsto> v)\<rparr>)\<rparr>"
    from h Some have "\<exists>d'. hdf_file ?w' k = Some d' \<and> content d' = Floats rs0 (rows0 @ [])"
      by (cases "k = key") simp_all
    then show "\<exists>d' extra. hdf_file ?w' k = Some d' \<and> content d' = Floats rs0 (rows0 @ extra)"
      by blast
  qed
  with Some show ?thesis by (simp add: set_attr_def)
qed

lemma run_kept:
  assumes "\<And>f w. f \<in> set fs \<Longrightarrow> rows_kept w (snd (f w))"
  shows "rows_kept w (snd (run fs w))"
  using assms
proof (induction fs arbitrary: w)
  case Nil
  show ?case by simp
next
  case (Cons f fs)
  obtain r w1 where eq: "f w = (r, w1)" by (cases "f w")
  have k1: "rows_kept w w1" using Cons.prems [of f w] by (simp add: eq)
  show ?case
  proof (cases r)
    case None
    have "rows_kept w1 (snd (run fs w1))" by (rule Cons.IH) (simp add: Cons.prems)
    with k1 None eq show ?thesis by (auto intro: rows_kept_trans)
  next
    case (Some e)
    with k1 eq show ?thesis by simp
  qed
qed

lemma conversion_tail_kept:
  assumes "f \<in> set (tl (conversion_steps e crop trainIdx validateIdx fileIdx filename dataDir json_data))"
  shows "rows_kept w (snd (f w))"
  using assms
  by (auto simp: conversion_steps_def metadata_steps_def volume_steps_def print_kept
      assign_local_kept create_dataset_kept set_attr_kept save_loop_kept)

lemma remainder_kept:
  assumes "0 < k"
  shows "rows_kept w (snd (run (save_loop key prep first rest
            # drop k (conversion_steps e crop trainIdx validateIdx fileIdx filename dataDir json_data)) w))"
proof (rule run_kept)
  fix f w
  assume "f \<in> set (save_loop key prep first rest
            # drop k (conversion_steps e crop trainIdx validateIdx fileIdx filename dataDir json_data))"
  moreover have "set (drop k (conversion_steps e crop trainIdx validateIdx fileIdx filename dataDir json_data))
      \<subseteq> set (tl (conversion_steps e crop trainIdx validateIdx fileIdx filename dataDir json_data))"
    using assms by (metis Suc_pred drop_Suc set_drop_subset)
  ultimately show "rows_kept w (snd (f w))"
    using save_loop_kept conversion_tail_kept by auto
qed

lemma stored_rows_same:
  assumes "tl (shape img) = rs" and "shape img \<noteq> []" and "0 \<notin> set rs"
  shows "stored_rows rs img = Inr (rows_of img)"
proof -
  from assms(1,2) have sh: "shape img = hd (shape img) # rs" by (cases "shape img") auto
  from stored_rows_own [OF sh] assms(3) show ?thesis by (auto simp: rows_of_def)
qed

text \<open>
  C8. A write after the first one, into a dataset of numbers that holds some rows: when
  it succeeds, the dataset has grown by the number of rows of the volume, the old rows
  are where they were and the rows that the assignment stores for the volume follow
  them, and no other dataset has changed. Where the volume has the shape of the new
  rows, and no axis of length zero, the stored rows are the rows of the volume. From
  then on the rows stay: whatever the rest of the loop and the later statements of the
  conversion do, and whether they succeed or raise, every row that a dataset holds now
  is still one of its first rows afterwards.
\<close>

theorem appended_rows_stay:
  assumes "hdf_file w key = Some d" and "content d = Floats rs rows"
    and "write_volume key False img w = (None, w')" and "0 < k"
  shows "(\<exists>d' new. hdf_file w' key = Some d' \<and> stored_rows rs img = Inr new
            \<and> length new = hd (shape img)
            \<and> content d' = Floats rs (rows @ new)
            \<and> dataset_shape (content d') = (length rows + hd (shape img)) # rs
            \<and> (tl (shape img) = rs \<and> 0 \<notin> set rs \<longrightarrow> new = rows_of img))
       \<and> (\<forall>key'. key' \<noteq> key \<longrightarrow> hdf_file w' key' = hdf_file w key')
       \<and> rows_kept w' (snd (run (save_loop key prep False rest
            # drop k (conversion_steps e crop trainIdx validateIdx fileIdx filename dataDir json_data)) w'))"
proof -
  from write_volume_next [OF assms(1-3)] obtain new where
    new: "stored_rows rs img = Inr new" and
    w': "w' = w\<lparr>hdf_file := (hdf_file w)(key \<mapsto> d\<lparr>content := Floats rs (rows @ new)\<rparr>)\<rparr>"
    by blast
  have len: "length new = hd (shape img)" by (rule stored_rows_length [OF new])
  have ne: "shape img \<noteq> []" using assms(3) by (auto simp: write_volume_def)
  have same: "new = rows_of img" if "tl (shape img) = rs \<and> 0 \<notin> set rs"
    using stored_rows_same [of img rs] that ne new by simp
  let ?d' = "d\<lparr>content := Floats rs (rows @ new)\<rparr>"
  have "hdf_file w' key = Some ?d' \<and> stored_rows rs img = Inr new
            \<and> length new = hd (shape img)
            \<and> content ?d' = Floats rs (rows @ new)
            \<and> dataset_shape (content ?d') = (length rows + hd (shape img)) # rs
            \<and> (tl (shape img) = rs \<and> 0 \<notin> set rs \<longrightarrow> new = rows_of img)"
    using new len same by (simp add: w')
  then have "\<exists>d' new. hdf_file w' key = Some d' \<and> stored_rows rs img = Inr new
            \<and> length new = hd (shape img)
            \<and> content d' = Floats rs (rows @ new)
            \<and> dataset_shape (content d') = (length rows + hd (shape img)) # rs
            \<and> (tl (shape img) = rs \<and> 0 \<notin> set rs \<longrightarrow> new = rows_of img)"
    by blast
  moreover from w' have "\<forall>key'. key' \<noteq> key \<longrightarrow> hdf_file w' key' = hdf_file w key'"
    by simp
  ultimately show ?thesis using remainder_kept [OF assms(4)] by blast
qed

lemma save_loop_False_rows:
  assumes "hdf_file w key = Some d" and "content d = Floats rs rows"
    and "save_loop key prep False idxs w = (None, w')"
  shows "\<exists>vols news d'. map prep idxs = map Inr vols
           \<and> map (stored_rows rs) vols = map Inr news
           \<and> hdf_file w' key = Some d'
           \<and> content d' = Floats rs (rows @ concat news)"
  using assms
proof (induction idxs arbitrary: w d rows)
  case Nil
  then have "map prep [] = map Inr [] \<and> map (stored_rows rs) [] = map Inr []
           \<and> hdf_file w' key = Some d \<and> content d = Floats rs (rows @ concat [])"
    by simp
  then show ?case by blast
next
  case (Cons idx rest)
  from Cons.prems(3) obtain img where p: "prep idx = Inr img"
    by (cases "prep idx") simp_all
  with Cons.prems(3) obtain w1 where wv: "write_volume key False img w = (None, w1)"
    and loop: "save_loop key prep False rest w1 = (None, w')"
    by (auto split: prod.splits option.splits)
  from write_volume_next [OF Cons.prems(1,2) wv] obtain new where
    new: "stored_rows rs img = Inr new" and
    w1: "w1 = w\<lparr>hdf_file := (hdf_file w)(key \<mapsto> d\<lparr>content := Floats rs (rows @ new)\<rparr>)\<rparr>"
    by blast
  have "\<exists>vols news d'. map prep rest = map Inr vols
           \<and> map (stored_rows rs) vols = map Inr news
           \<and> hdf_file w' key = Some d'
           \<and> content d' = Floats rs ((rows @ new) @ concat news)"
    using Cons.IH [of w1 "d\<lparr>content := Floats rs (rows @ new)\<rparr>" "rows @ new"] loop
    by (simp add: w1)
  then obtain vols news d' where "map prep rest = map Inr vols"
    and "map (stored_rows rs) vols = map Inr news" and "hdf_file w' key = Some d'"
    and "content d' = Floats rs ((rows @ new) @ concat news)"
    by blast
  with p new have "map prep (idx # rest) = map Inr (img # vols)
           \<and> map (stored_rows rs) (img # vols) = map Inr (new # news)
           \<and> hdf_file w' key = Some d'
           \<and> content d' = Floats rs (rows @ concat (new # news))"
    by simp
  then show ?case by blast
qed

lemma save_loop_True_rows:
  assumes "save_loop key prep True idxs w = (None, w')" and "key \<notin> dom (hdf_file w)"
  shows "\<exists>vols news. map prep idxs = map Inr vols
           \<and> map (stored_rows (tl (shape (hd vols)))) vols = map Inr news
           \<and> dataset_rows w' key = concat news"
proof (cases idxs)
  case Nil
  with assms have "map prep idxs = map Inr []
           \<and> map (stored_rows (tl (shape (hd []))))  [] = map Inr []
           \<and> dataset_rows w' key = concat []"
    by (auto simp: dataset_rows_def domIff)
  then show ?thesis by blast
next
  case (Cons idx rest)
  from assms(1) Cons obtain img where p: "prep idx = Inr img"
    by (cases "prep idx") simp_all
  with assms(1) Cons obtain w1 where wv: "write_volume key True img w = (None, w1)"
    and loop: "save_loop key prep False rest w1 = (None, w')"
    by (auto split: prod.splits option.splits)
  from write_volume_first [OF wv] obtain new where
    new: "stored_rows (tl (shape img)) img = Inr new" and
    w1: "w1 = w\<lparr>hdf_file := (hdf_file w)(key \<mapsto>
                   \<lparr>content = Floats (tl (shape img)) new, attrs = Map.empty\<rparr>)\<rparr>"
    by blast
  have "\<exists>vols news d'. map prep rest = map Inr vols
           \<and> map (stored_rows (tl (shape img))) vols = map Inr news
           \<and> hdf_file w' key = Some d'
           \<and> content d' = Floats (tl (shape img)) (new @ concat news)"
    using save_loop_False_rows [of w1 key
        "\<lparr>content = Floats (tl (shape img)) new, attrs = Map.empty\<rparr>"
        "tl (shape img)" new prep rest w'] loop
    by (simp add: w1)
  then obtain vols news d' where "map prep rest = map Inr vols"
    and "map (stored_rows (tl (shape img))) vols = map Inr news"
    and "hdf_file w' key = Some d'"
    and "content d' = Floats (tl (shape img)) (new @ concat news)"
    by blast
  with p new Cons have "map prep idxs = map Inr (img # vols)
      \<and> map (stored_rows (tl (shape (hd (img # vols))))) (img # vols) = map Inr (new # news)
      \<and> dataset_rows w' key = concat (new # news)"
    by (simp add: dataset_rows_def)
  then show ?thesis by blast
qed

lemma save_loop_dom:
  "dom (hdf_file (snd (save_loop key prep first idxs w))) \<subseteq> insert key (dom (hdf_file w))"
proof
  fix k
  assume k: "k \<in> dom (hdf_file (snd (save_loop key prep first idxs w)))"
  show "k \<in> insert key (dom (hdf_file w))"
  proof (cases "k = key")
    case True
    then show ?thesis by simp
  next
    case False
    from save_loop_frame [OF False, of prep first idxs w] k show ?thesis by (simp add: dom_def)
  qed
qed

lemma save_loop_rows_frame:
  assumes "k \<noteq> key"
  shows "dataset_rows (snd (save_loop key prep first idxs w)) k = dataset_rows w k"
  using save_loop_frame [OF assms, of prep first idxs w] by (simp add: dataset_rows_def)

lemma write_volume_next_ok:
  assumes "hdf_file w key = Some d" and "content d = Floats rs rows"
    and "shape img = n # rs" and "0 \<notin> set rs"
  shows "write_volume key False img w =
    (None, w\<lparr>hdf_file := (hdf_file w)(key \<mapsto> d\<lparr>content := Floats rs (rows @ rows_of img)\<rparr>)\<rparr>)"
proof -
  have "stored_rows rs img = Inr (rows_of img)"
    by (rule stored_rows_same) (simp_all add: assms(3,4))
  moreover have "shape img \<noteq> []" using assms(3) by simp
  ultimately show ?thesis using write_volume_next_eq [OF assms(1,2)] by simp
qed

lemma write_volume_first_ok:
  assumes "key \<notin> dom (hdf_file w)" and "shape img = [n, a, b, c]" and "0 \<notin> set [a, b, c]"
  shows "write_volume key True img w =
    (None, w\<lparr>hdf_file := (hdf_file w)(key \<mapsto>
               \<lparr>content = Floats [a, b, c] (rows_of img), attrs = Map.empty\<rparr>)\<rparr>)"
proof -
  have "(if n = 0 \<or> 0 \<in> set [a, b, c] then replicate n (zero_row [a, b, c]) else rows_of img)
      = rows_of img"
    using assms(2,3) by (auto simp: rows_of_def)
  with write_volume_first_eq [OF assms(2,1)] show ?thesis by simp
qed

text \<open>
  A volume with one row of shape (2, 1, 1) is written to a dataset whose rows have the
  shape (2, 2, 1): the write succeeds, and the stored row repeats the volume along the
  second axis.
\<close>

lemma write_volume_broadcast:
  "\<exists>w' d' r. write_volume ''imgs_train'' False
        \<lparr>shape = [1, 2, 1, 1], elem = (\<lambda>idx. if idx = [0, 0, 0, 0] then 5 else 7)\<rparr>
        (empty_world\<lparr>hdf_file := [''imgs_train'' \<mapsto>
            \<lparr>content = Floats [2, 2, 1] [zero_row [2, 2, 1]], attrs = Map.empty\<rparr>]\<rparr>) = (None, w')
     \<and> hdf_file w' ''imgs_train'' = Some d'
     \<and> content d' = Floats [2, 2, 1] [zero_row [2, 2, 1], r]
     \<and> shape r = [2, 2, 1]
     \<and> map (elem r) [[0, 0, 0], [0, 1, 0], [1, 0, 0], [1, 1, 0]] = [5, 5, 7, 7]"
proof -
  let ?img = "\<lparr>shape = [1, 2, 1, 1], elem = (\<lambda>idx. if idx = [0, 0, 0, 0] then 5 else 7 :: real)\<rparr>"
  let ?d = "\<lparr>content = Floats [2, 2, 1] [zero_row [2, 2, 1]], attrs = Map.empty\<rparr>"
  let ?w = "empty_world\<lparr>hdf_file := [''imgs_train'' \<mapsto> ?d]\<rparr>"
  define b where "b = \<lparr>shape = [1, 2, 2, 1],
      elem = (\<lambda>idx. elem ?img (broadcast_index [1, 2, 1, 1] [1, 2, 2, 1] idx))\<rparr>"
  have bt: "broadcast_to [1, 2, 2, 1] ?img = Inr b"
    by (simp add: broadcast_to_def expand_shape_def b_def)
  have s: "stored_rows [2, 2, 1] ?img = Inr (rows_of b)"
    using bt by (simp add: stored_rows_def)
  have r: "rows_of b = [row_of b 0]" by (simp add: rows_of_def b_def)
  have h: "hdf_file ?w ''imgs_train'' = Some ?d" by simp
  have c: "content ?d = Floats [2, 2, 1] [zero_row [2, 2, 1]]" by simp
  have ne: "shape ?img \<noteq> []" by simp
  from write_volume_next_eq [OF h c ne] s r
  have "write_volume ''imgs_train'' False ?img ?w =
      (None, ?w\<lparr>hdf_file := (hdf_file ?w)(''imgs_train'' \<mapsto>
          ?d\<lparr>content := Floats [2, 2, 1] ([zero_row [2, 2, 1]] @ [row_of b 0])\<rparr>)\<rparr>)"
    by simp
  moreover have "shape (row_of b 0) = [2, 2, 1]" by (simp add: row_of_def b_def)
  moreover have "map (elem (row_of b 0)) [[0, 0, 0], [0, 1, 0], [1, 0, 0], [1, 1, 0]] = [5, 5, 7, 7]"
    by (simp add: row_of_def b_def)
  ultimately show ?thesis by simp
qed

theorem appended_rows_stay_witness:
  "\<exists>w'. hdf_file (empty_world\<lparr>hdf_file := [''imgs_train'' \<mapsto>
              \<lparr>content = Floats [1, 1, 1] [zero_row [1, 1, 1]], attrs = Map.empty\<rparr>]\<rparr>) ''imgs_train''
          = Some \<lparr>content = Floats [1, 1, 1] [zero_row [1, 1, 1]], attrs = Map.empty\<rparr>
     \<and> write_volume ''imgs_train'' False \<lparr>shape = [2, 1, 1, 1], elem = (\<lambda>idx. 1)\<rparr>
          (empty_world\<lparr>hdf_file := [''imgs_train'' \<mapsto>
              \<lparr>content = Floats [1, 1, 1] [zero_row [1, 1, 1]], attrs = Map.empty\<rparr>]\<rparr>) = (None, w')
     \<and> (0::nat) < 14
     \<and> tl (shape \<lparr>shape = [2, 1, 1, 1], elem = (\<lambda>idx. 1 :: real)\<rparr>) = [1, 1, 1]
     \<and> 0 \<notin> set [1, 1, 1 :: nat]
     \<and> (\<exists>d'. hdf_file w' ''imgs_train'' = Some d'
            \<and> content d' = Floats [1, 1, 1]
                 ([zero_row [1, 1, 1]] @ rows_of \<lparr>shape = [2, 1, 1, 1], elem = (\<lambda>idx. 1)\<rparr>)
            \<and> dataset_shape (content d') = [3, 1, 1, 1])
     \<and> rows_kept w' (snd (run (save_loop ''imgs_train''
            (load_img example_env 2 (training example_manifest) ''data'') False [1]
            # drop 14 (conversion_steps example_env 2 [0, 1] [] (training example_manifest)
                 ''out/2x2/decathlon_brats.h5'' ''data'' example_manifest)) w'))"
proof -
  let ?d = "\<lparr>content = Floats [1, 1, 1] [zero_row [1, 1, 1]], attrs = Map.empty\<rparr>"
  let ?w = "empty_world\<lparr>hdf_file := [''imgs_train'' \<mapsto> ?d]\<rparr>"
  let ?img = "\<lparr>shape = [2, 1, 1, 1], elem = (\<lambda>idx. 1::real)\<rparr>"
  have h: "hdf_file ?w ''imgs_train'' = Some ?d" by simp
  have c: "content ?d = Floats [1, 1, 1] [zero_row [1, 1, 1]]" by simp
  have sh: "shape ?img = 2 # [1, 1, 1]" by simp
  have t: "tl (shape ?img) = [1, 1, 1]" by simp
  have z: "0 \<notin> set [1, 1, 1 :: nat]" by simp
  obtain w' where wv: "write_volume ''imgs_train'' False ?img ?w = (None, w')"
    using write_volume_next_ok [OF h c sh z] by simp
  have k: "(0::nat) < 14" by simp
  note r = appended_rows_stay [OF h c wv k, of
      "load_img example_env 2 (training example_manifest) ''data''" "[1]" example_env 2 "[0, 1]" "[]"
      "training example_manifest" "''out/2x2/decathlon_brats.h5''" "''data''" example_manifest]
  from r obtain d' new where d': "hdf_file w' ''imgs_train'' = Some d'"
    "content d' = Floats [1, 1, 1] ([zero_row [1, 1, 1]] @ new)"
    "dataset_shape (content d') = (length [zero_row [1, 1, 1]] + hd (shape ?img)) # [1, 1, 1]"
    "tl (shape ?img) = [1, 1, 1] \<and> 0 \<notin> set [1, 1, 1 :: nat] \<longrightarrow> new = rows_of ?img"
    by blast
  from d'(4) t z have n: "new = rows_of ?img" by blast
  from d'(3) have "dataset_shape (content d') = [3, 1, 1, 1]" by simp
  with d'(1,2) n have A: "\<exists>d'. hdf_file w' ''imgs_train'' = Some d'
            \<and> content d' = Floats [1, 1, 1] ([zero_row [1, 1, 1]] @ rows_of ?img)
            \<and> dataset_shape (content d') = [3, 1, 1, 1]" by blast
  from r have B: "rows_kept w' (snd (run (save_loop ''imgs_train''
            (load_img example_env 2 (training example_manifest) ''data'') False [1]
            # drop 14 (conversion_steps example_env 2 [0, 1] [] (training example_manifest)
                 ''out/2x2/decathlon_brats.h5'' ''data'' example_manifest)) w'))"
    by blast
  from h wv k t z A B show ?thesis by blast
qed


subsection \<open>Sequences of statements\<close>

lemma run_append:
  "run (xs @ ys) w = (case run xs w of (Some e, w') \<Rightarrow> (Some e, w') | (None, w') \<Rightarrow> run ys w')"
  by (induction xs arbitrary: w) (auto split: prod.splits option.splits)

lemma run_preserves:
  assumes "\<And>f w. f \<in> set fs \<Longrightarrow> P w \<Longrightarrow> P (snd (f w))" and "P w"
  shows "P (snd (run fs w))"
  using assms
proof (induction fs arbitrary: w)
  case Nil
  then show ?case by simp
next
  case (Cons f fs)
  obtain r w1 where eq: "f w = (r, w1)" by (cases "f w")
  have p1: "P w1" using Cons.prems(1) [of f w] Cons.prems(2) by (simp add: eq)
  show ?case
  proof (cases r)
    case None
    have "P (snd (run fs w1))" by (rule Cons.IH) (simp_all add: Cons.prems(1) p1)
    with None eq show ?thesis by simp
  next
    case (Some e)
    with p1 eq show ?thesis by simp
  qed
qed

lemma metadata_run:
  "run (h5py_File filename # metadata_steps json_data) w =
     (None, w\<lparr>files := insert filename (files w), hdf_file := metadata_map\<rparr>)"
  by (simp add: metadata_steps_def metadata_map_def h5py_File_def create_dataset_def
      assign_local_def)



subsection \<open>The metadata datasets\<close>

lemma print_hdf [simp]: "hdf_file (snd (print msg w)) = hdf_file w"
  by (simp add: print_def)

lemma set_attr_frame:
  assumes "k \<noteq> key"
  shows "hdf_file (snd (set_attr key a v w)) k = hdf_file w k"
  using assms by (simp add: set_attr_def split: option.splits)

lemma volume_steps_frame:
  assumes "f \<in> set (volume_steps e crop trainIdx validateIdx fileIdx filename dataDir json_data)"
    and "k \<notin> {''imgs_train'', ''imgs_test'', ''msks_train'', ''msks_test''}"
  shows "hdf_file (snd (f w)) k = hdf_file w k"
  using assms by (auto simp: volume_steps_def set_attr_frame save_loop_frame)

lemma conversion_run:
  "convert_raw_data_to_hdf5 e crop trainIdx validateIdx fileIdx filename dataDir json_data w
     = run (volume_steps e crop trainIdx validateIdx fileIdx filename dataDir json_data)
         (w\<lparr>files := insert filename (files w), hdf_file := metadata_map\<rparr>)"
proof -
  have "run ((h5py_File filename # metadata_steps json_data)
          @ volume_steps e crop trainIdx validateIdx fileIdx filename dataDir json_data) w
      = run (volume_steps e crop trainIdx validateIdx fileIdx filename dataDir json_data)
         (w\<lparr>files := insert filename (files w), hdf_file := metadata_map\<rparr>)"
    by (simp only: run_append metadata_run prod.case option.case)
  then show ?thesis
    by (simp add: convert_raw_data_to_hdf5_def conversion_steps_def del: run.simps)
qed

lemma conversion_metadata:
  assumes "k \<notin> {''imgs_train'', ''imgs_test'', ''msks_train'', ''msks_test''}"
  shows "hdf_file (snd (convert_raw_data_to_hdf5 e crop trainIdx validateIdx fileIdx filename
            dataDir json_data w)) k = metadata_map k"
  unfolding conversion_run
  by (rule run_preserves [where P = "\<lambda>w. hdf_file w k = metadata_map k"])
    (simp_all add: volume_steps_frame [OF _ assms])

text \<open>
  C2. The five metadata datasets are created before any volume is written, and that is
  all that happens to them: for every manifest, every pair of index lists and every
  outcome of the conversion, each of them holds at the end the empty strings it was
  created with, 100, 100, 200, 100 and 50 of them. No string of the manifest is in the
  container.
\<close>

theorem metadata_entries_empty:
  "map_option content (hdf_file (snd (convert_raw_data_to_hdf5 e crop trainIdx validateIdx
       fileIdx filename dataDir json_data w)) ''license'') = Some (Strings (replicate 100 []))
   \<and> map_option content (hdf_file (snd (convert_raw_data_to_hdf5 e crop trainIdx validateIdx
       fileIdx filename dataDir json_data w)) ''name'') = Some (Strings (replicate 100 []))
   \<and> map_option content (hdf_file (snd (convert_raw_data_to_hdf5 e crop trainIdx validateIdx
       fileIdx filename dataDir json_data w)) ''description'') = Some (Strings (replicate 200 []))
   \<and> map_option content (hdf_file (snd (convert_raw_data_to_hdf5 e crop trainIdx validateIdx
       fileIdx filename dataDir json_data w)) ''reference'') = Some (Strings (replicate 100 []))
   \<and> map_option content (hdf_file (snd (convert_raw_data_to_hdf5 e crop trainIdx validateIdx
       fileIdx filename dataDir json_data w)) ''release'') = Some (Strings (replicate 50 []))"
  by (simp add: conversion_metadata metadata_map_def)



subsection \<open>The script\<close>

lemma make_save_dir_result:
  "(fst (make_save_dir e d w) = None \<or> (\<exists>q. fst (make_save_dir e d w) = Some (OSError q)))
   \<and> hdf_file (snd (make_save_dir e d w)) = hdf_file w"
  by (simp add: make_save_dir_def makedirs_def)

lemma remove_existing_result:
  "(fst (remove_existing f w) = None \<or> (\<exists>q. fst (remove_existing f w) = Some (OSError q)))
   \<and> hdf_file (snd (remove_existing f w)) = hdf_file w"
  by (simp add: remove_existing_def os_remove_def print_def)

lemma prelude_result:
  "(fst (run [print banner, (\<lambda>w. (None, w\<lparr>console := console w @ [Namespace a]\<rparr>)),
              make_save_dir e d, remove_existing f] w) = None
    \<or> (\<exists>q. fst (run [print banner, (\<lambda>w. (None, w\<lparr>console := console w @ [Namespace a]\<rparr>)),
              make_save_dir e d, remove_existing f] w) = Some (OSError q)))
   \<and> hdf_file (snd (run [print banner, (\<lambda>w. (None, w\<lparr>console := console w @ [Namespace a]\<rparr>)),
              make_save_dir e d, remove_existing f] w)) = hdf_file w"
proof -
  let ?r = "run [print banner, (\<lambda>w. (None, w\<lparr>console := console w @ [Namespace a]\<rparr>)),
              make_save_dir e d, remove_existing f]"
  let ?w2 = "w\<lparr>console := console w @ [Line banner, Namespace a]\<rparr>"
  have r: "?r w = (case make_save_dir e d ?w2 of
                    (Some err, w') \<Rightarrow> (Some err, w')
                  | (None, w') \<Rightarrow> (case remove_existing f w' of
                        (Some err, w'') \<Rightarrow> (Some err, w'') | (None, w'') \<Rightarrow> (None, w'')))"
    by (simp add: print_def split: prod.splits option.splits)
  obtain r1 w3 where m: "make_save_dir e d ?w2 = (r1, w3)" by (cases "make_save_dir e d ?w2")
  obtain r2 w4 where x: "remove_existing f w3 = (r2, w4)" by (cases "remove_existing f w3")
  from make_save_dir_result [of e d ?w2] m
  have m': "(r1 = None \<or> (\<exists>q. r1 = Some (OSError q)))" "hdf_file w3 = hdf_file w" by simp_all
  from remove_existing_result [of f w3] x
  have x': "(r2 = None \<or> (\<exists>q. r2 = Some (OSError q)))" "hdf_file w4 = hdf_file w3" by simp_all
  from m' x' show ?thesis
    unfolding r m by (cases r1; cases r2) (auto simp: x)
qed

lemma main_tail_None:
  "main_tail e a filename None w = (Some (NameError ''experiment_data''), w)"
  by (simp add: main_tail_def)

lemma run_prints:
  "run (map print msgs @ fs) w = run fs (w\<lparr>console := console w @ map Line msgs\<rparr>)"
  by (induction msgs arbitrary: w) (simp_all add: print_def)

lemma main_tail_Some:
  "\<exists>w'. hdf_file w' = hdf_file w \<and>
     main_tail e a filename (Some data) w =
       (case splitter (draws e) (numTraining data) (split a) of
          Inl err \<Rightarrow> (Some err, w')
        | Inr (trainList, validateList) \<Rightarrow>
            convert_raw_data_to_hdf5 e (resize a) trainList validateList
              (training data) filename (data_path a) data w')"
proof -
  let ?msgs = "[''Dataset name =  '' @ name data, description data,
      ''Dataset release:  '' @ release data, ''Dataset reference:  '' @ reference data,
      ''Dataset license:  '' @ licence data, replicate 30 CHR ''='', replicate 30 CHR ''='']"
  let ?last = "\<lambda>w. case splitter (draws e) (numTraining data) (split a) of
                   Inl err \<Rightarrow> (Some err, w)
                 | Inr (trainList, validateList) \<Rightarrow>
                     convert_raw_data_to_hdf5 e (resize a) trainList validateList
                       (training data) filename (data_path a) data w"
  let ?w' = "w\<lparr>console := console w @ map Line ?msgs\<rparr>"
  have "main_tail e a filename (Some data) w = run (map print ?msgs @ [?last]) w"
    by (simp add: main_tail_def del: run.simps)
  also have "\<dots> = run [?last] ?w'" by (rule run_prints)
  also have "\<dots> = ?last ?w'"
    by (simp split: sum.splits prod.splits option.splits)
  finally have "main_tail e a filename (Some data) w = ?last ?w'" .
  moreover have "hdf_file ?w' = hdf_file w" by simp
  ultimately show ?thesis by blast
qed

lemma load_manifest_cases:
  obtains (ok) data where "read_json e jf = Inr data" "load_manifest e jf w = (Inr (Some data), w)"
  | (missing) p where "read_json e jf = Inl (OSError p)"
      "load_manifest e jf w = (Inr None, w\<lparr>console := console w @
          [Line (''File '' @ jf @ '' doesn't exist. It should be part of the Decathlon directory'')]\<rparr>)"
  | (other) err where "read_json e jf = Inl err" "\<And>p. err \<noteq> OSError p"
      "load_manifest e jf w = (Inl err, w)"
proof (cases "read_json e jf")
  case (Inr data)
  then show ?thesis using ok by (simp add: load_manifest_def)
next
  case (Inl err)
  then show ?thesis using missing other
    by (cases err) (simp_all add: load_manifest_def print_def)
qed


lemma main_cases:
  obtains (dir_error) q w1 where "main e a w = (Some (OSError q), w1)" "hdf_file w1 = hdf_file w"
  | (read_error) err w1 where
      "read_json e (path_join (data_path a) ''dataset.json'') = Inl err" "\<And>p. err \<noteq> OSError p"
      "main e a w = (Some err, w1)" "hdf_file w1 = hdf_file w"
  | (unbound) p w1 where
      "read_json e (path_join (data_path a) ''dataset.json'') = Inl (OSError p)"
      "main e a w = (Some (NameError ''experiment_data''),
         w1\<lparr>console := console w1 @ [Line (''File '' @ path_join (data_path a) ''dataset.json''
            @ '' doesn't exist. It should be part of the Decathlon directory'')]\<rparr>)"
      "hdf_file w1 = hdf_file w"
  | (split_error) data err w1 where
      "read_json e (path_join (data_path a) ''dataset.json'') = Inr data"
      "splitter (draws e) (numTraining data) (split a) = Inl err"
      "main e a w = (Some err, w1)" "hdf_file w1 = hdf_file w"
  | (convert) data trainList validateList w1 where
      "read_json e (path_join (data_path a) ''dataset.json'') = Inr data"
      "splitter (draws e) (numTraining data) (split a) = Inr (trainList, validateList)"
      "main e a w = convert_raw_data_to_hdf5 e (resize a) trainList validateList (training data)
         (path_join (path_join (save_path a) (str_int (resize a) @ ''x'' @ str_int (resize a) @ ''/''))
            (output_filename a)) (data_path a) data w1"
proof -
  let ?sd = "path_join (save_path a) (str_int (resize a) @ ''x'' @ str_int (resize a) @ ''/'')"
  let ?fn = "path_join ?sd (output_filename a)"
  let ?jf = "path_join (data_path a) ''dataset.json''"
  let ?pre = "run [print (''Converting Decathlon raw Nifti data files to single '' @
                       ''training and validation HDF5 data file.''),
                (\<lambda>w. (None, w\<lparr>console := console w @ [Namespace a]\<rparr>)),
                make_save_dir e ?sd, remove_existing ?fn]"
  obtain r1 w1 where pre: "?pre w = (r1, w1)" by (cases "?pre w")
  have "(fst (?pre w) = None \<or> (\<exists>q. fst (?pre w) = Some (OSError q)))
      \<and> hdf_file (snd (?pre w)) = hdf_file w"
    by (rule prelude_result)
  then have r1: "r1 = None \<or> (\<exists>q. r1 = Some (OSError q))" and h1: "hdf_file w1 = hdf_file w"
    by (simp_all only: pre fst_conv snd_conv)
  have m: "main e a w = (case (r1, w1) of
           (Some err, w1) \<Rightarrow> (Some err, w1)
         | (None, w1) \<Rightarrow>
             (case load_manifest e ?jf w1 of
                (Inl err, w2) \<Rightarrow> (Some err, w2)
              | (Inr experiment_data, w2) \<Rightarrow> main_tail e a ?fn experiment_data w2))"
    unfolding main_def Let_def pre ..
  show ?thesis
  proof (cases r1)
    case (Some err)
    with r1 obtain q where "r1 = Some (OSError q)" by auto
    with m h1 dir_error show ?thesis by simp
  next
    case None
    show ?thesis
    proof (cases rule: load_manifest_cases [of e ?jf w1])
      case (ok data)
      from main_tail_Some [of w1 e a ?fn data] obtain w' where w': "hdf_file w' = hdf_file w1"
        and t: "main_tail e a ?fn (Some data) w1 =
          (case splitter (draws e) (numTraining data) (split a) of
             Inl err \<Rightarrow> (Some err, w')
           | Inr (trainList, validateList) \<Rightarrow>
               convert_raw_data_to_hdf5 e (resize a) trainList validateList
                 (training data) ?fn (data_path a) data w')"
        by blast
      show ?thesis
      proof (cases "splitter (draws e) (numTraining data) (split a)")
        case (Inl err)
        with m None ok t w' h1 split_error show ?thesis by simp
      next
        case (Inr lists)
        obtain tr va where "lists = (tr, va)" by (cases lists)
        with Inr m None ok t convert show ?thesis by simp
      qed
    next
      case (missing p)
      with m None h1 unbound show ?thesis by (simp add: main_tail_None)
    next
      case (other err)
      with m None h1 read_error show ?thesis by simp
    qed
  qed
qed

lemma missing_manifest_NameError:
  assumes "read_json e (path_join (data_path a) ''dataset.json'') = Inl (OSError p)"
  shows "(\<exists>q. fst (main e a w) = Some (OSError q))
       \<or> (fst (main e a w) = Some (NameError ''experiment_data'')
          \<and> last (console (snd (main e a w))) =
               Line (''File '' @ path_join (data_path a) ''dataset.json''
                     @ '' doesn't exist. It should be part of the Decathlon directory'')
          \<and> hdf_file (snd (main e a w)) = hdf_file w)"
proof (cases rule: main_cases [of e a w])
  case (dir_error q w1)
  then show ?thesis by simp
next
  case (read_error err w1)
  with assms show ?thesis by simp
next
  case (unbound p w1)
  then show ?thesis by simp
next
  case (split_error data err w1)
  with assms show ?thesis by simp
next
  case (convert data trainList validateList w1)
  with assms show ?thesis by simp
qed


subsection \<open>The small data set\<close>

lemma str_int_2: "str_int 2 = ''2''"
  by (simp add: str_int_def)

lemma example_paths:
  "path_join ''out'' (str_int 2 @ ''x'' @ str_int 2 @ ''/'') = ''out/2x2/''"
  "path_join ''out/2x2/'' ''decathlon_brats.h5'' = ''out/2x2/decathlon_brats.h5''"
  "path_join ''data'' ''dataset.json'' = ''data/dataset.json''"
  "path_join ''nowhere'' ''dataset.json'' = ''nowhere/dataset.json''"
  "path_join ''data'' ''./imagesTr/BRATS_001.nii.gz'' = ''data/./imagesTr/BRATS_001.nii.gz''"
  "path_join ''data'' ''./imagesTr/BRATS_002.nii.gz'' = ''data/./imagesTr/BRATS_002.nii.gz''"
  "path_join ''data'' ''./labelsTr/BRATS_001.nii.gz'' = ''data/./labelsTr/BRATS_001.nii.gz''"
  "path_join ''data'' ''./labelsTr/BRATS_002.nii.gz'' = ''data/./labelsTr/BRATS_002.nii.gz''"
  by (simp_all add: path_join_def str_int_2)

lemma example_windows: "win_lo 2 2 = 0" "win_hi 2 2 = 2" "win_lo (Suc 0) 2 = 0" "win_hi (Suc 0) 2 = Suc 0"
  by (simp_all add: win_lo_nonneg win_hi_nonneg)

lemma example_load_img:
  assumes "i < 2"
  shows "\<exists>img. load_img example_env 2 (training example_manifest) ''data'' i = Inr img
           \<and> shape img = [1, 1, 2, 1]"
proof -
  have c: "crop_center example_image 2 2 2 =
      Inr \<lparr>shape = [2, 1, 1] @ [1],
           elem = (\<lambda>idx. elem example_image (shift_index [0, 0, 0] idx))\<rparr>"
    using crop_center_eq [of example_image 2 1 1 "[1]" 2 2 2]
    by (simp add: example_image_def example_windows)
  from assms have "i = 0 \<or> i = 1" by auto
  then show ?thesis
    by (auto simp: load_img_def ebind_def list_get_def example_manifest_def example_env_def
        example_paths c normalize_img_def swapaxes_def normalize_axis_def swap_at_def)
qed

lemma example_load_msk:
  assumes "i < 2"
  shows "\<exists>msk. load_msk example_env 2 (training example_manifest) ''data'' i = Inr msk
           \<and> shape msk = [1, 1, 2, 1]"
proof -
  have c: "crop_center example_label 2 2 2 =
      Inr \<lparr>shape = [2, 1, 1] @ [],
           elem = (\<lambda>idx. elem example_label (shift_index [0, 0, 0] idx))\<rparr>"
    using crop_center_eq [of example_label 2 1 1 "[]" 2 2 2]
    by (simp add: example_label_def example_windows)
  from assms have "i = 0 \<or> i = 1" by auto
  then show ?thesis
    by (auto simp: load_msk_def ebind_def list_get_def example_manifest_def example_env_def
        example_paths c binarize_def swapaxes_def normalize_axis_def swap_at_def
        expand_dims_def)
qed


lemma save_loop_two:
  assumes "prep i = Inr a" and "shape a = [n, x, y, z]"
    and "prep j = Inr b" and "shape b = [m, x, y, z]" and "key \<notin> dom (hdf_file w)"
    and "0 \<notin> set [x, y, z]"
  shows "save_loop key prep True [i, j] w =
    (None, w\<lparr>hdf_file := (hdf_file w)(key \<mapsto>
       \<lparr>content = Floats [x, y, z] (rows_of a @ rows_of b), attrs = Map.empty\<rparr>)\<rparr>)"
proof -
  let ?d = "\<lparr>content = Floats [x, y, z] (rows_of a), attrs = Map.empty\<rparr>"
  let ?w1 = "w\<lparr>hdf_file := (hdf_file w)(key \<mapsto> ?d)\<rparr>"
  have 1: "write_volume key True a w = (None, ?w1)"
    by (rule write_volume_first_ok [OF assms(5,2,6)])
  have 2: "write_volume key False b ?w1 =
      (None, ?w1\<lparr>hdf_file := (hdf_file ?w1)(key \<mapsto> ?d\<lparr>content := Floats [x, y, z] (rows_of a @ rows_of b)\<rparr>)\<rparr>)"
    using assms(6) by (intro write_volume_next_ok [where n = m]) (simp_all add: assms(4))
  from assms(1,3) 1 2 show ?thesis by simp
qed

lemma up2: "[0..<2] = [0, 1]"
  by (simp add: upt_rec)

lemma example_split_one:
  "splitter (draws example_env) (numTraining example_manifest) 1 = Inr ([0, 1], [])"
  by (simp add: splitter_def mask_select_def example_env_def example_manifest_def up2)

lemma example_env_simps:
  "read_json example_env ''data/dataset.json'' = Inr example_manifest"
  "mkdir_ok example_env p = True"
  by (simp_all add: example_env_def)

lemma example_main_tail:
  "main example_env (example_args ''data'' r) empty_world =
     main_tail example_env (example_args ''data'' r) ''out/2x2/decathlon_brats.h5''
       (Some example_manifest)
       \<lparr>dirs = {''out/2x2/''}, files = {}, hdf_file = Map.empty,
        console = [Line (''Converting Decathlon raw Nifti data files to single '' @
                         ''training and validation HDF5 data file.''),
                   Namespace (example_args ''data'' r)]\<rparr>"
  by (simp add: main_def Let_def example_args_def path_join_def str_int_def make_save_dir_def
      makedirs_def remove_existing_def load_manifest_def example_env_simps print_def
      empty_world_def)

lemma example_main_convert:
  assumes "splitter (draws example_env) (numTraining example_manifest) r = Inr (tr, va)"
  shows "\<exists>w1. main example_env (example_args ''data'' r) empty_world =
     convert_raw_data_to_hdf5 example_env 2 tr va (training example_manifest)
       ''out/2x2/decathlon_brats.h5'' ''data'' example_manifest w1"
proof -
  let ?w0 = "\<lparr>dirs = {''out/2x2/''}, files = {}, hdf_file = Map.empty,
        console = [Line (''Converting Decathlon raw Nifti data files to single '' @
                         ''training and validation HDF5 data file.''),
                   Namespace (example_args ''data'' r)]\<rparr>"
  from main_tail_Some [of ?w0 example_env "example_args ''data'' r"
      "''out/2x2/decathlon_brats.h5''" example_manifest] assms
  show ?thesis
    unfolding example_main_tail by (auto simp: example_args_def)
qed

lemma example_volume_steps_split_one:
  "fst (run (volume_steps example_env 2 [0, 1] [] (training example_manifest) filename ''data''
         example_manifest) (w\<lparr>hdf_file := metadata_map\<rparr>)) = Some (KeyError ''imgs_test'')"
proof -
  obtain a where a: "load_img example_env 2 (training example_manifest) ''data'' 0 = Inr a"
    "shape a = [1, 1, 2, 1]"
    using example_load_img [of 0] by auto
  obtain b where b: "load_img example_env 2 (training example_manifest) ''data'' (Suc 0) = Inr b"
    "shape b = [1, 1, 2, 1]"
    using example_load_img [of "Suc 0"] by auto
  note loop = save_loop_two [OF a b, of "''imgs_train''"]
  show ?thesis
    by (simp del: save_loop.simps
        add: volume_steps_def print_def loop set_attr_def metadata_map_def save_loop.simps(1))
qed

text \<open>
  C7. The script is run on the small data set with a data directory that has no
  manifest. The handler prints its line and the script goes on to the next statement,
  which reads the name that was never bound: the run ends with a NameError, not with the
  error of the failed read. Nothing has been written to a container by then.
\<close>

theorem missing_manifest_run:
  "main example_env (example_args ''nowhere'' (85 / 100)) empty_world =
     (Some (NameError ''experiment_data''),
      \<lparr>dirs = {''out/2x2/''}, files = {}, hdf_file = Map.empty,
       console = [Line (''Converting Decathlon raw Nifti data files to single '' @
                        ''training and validation HDF5 data file.''),
                  Namespace (example_args ''nowhere'' (85 / 100)),
                  Line (''File nowhere/dataset.json doesn't exist. '' @
                        ''It should be part of the Decathlon directory'')]\<rparr>)"
  by (simp add: main_def Let_def example_args_def path_join_def str_int_def make_save_dir_def
      makedirs_def remove_existing_def load_manifest_def example_env_def main_tail_def
      print_def empty_world_def)


subsection \<open>Empty splits\<close>

lemma run_fails_at:
  assumes fail: "\<And>w. P w \<Longrightarrow> fst (f w) \<noteq> None"
    and keep: "\<And>g w. g \<in> set (xs @ [f]) \<Longrightarrow> P w \<Longrightarrow> P (snd (g w))"
    and "P w"
  shows "fst (run (xs @ f # ys) w) \<noteq> None \<and> P (snd (run (xs @ f # ys) w))"
  using keep \<open>P w\<close>
proof (induction xs arbitrary: w)
  case Nil
  obtain r w1 where eq: "f w = (r, w1)" by (cases "f w")
  from fail [OF Nil.prems(2)] eq obtain err where "r = Some err" by auto
  moreover from Nil.prems(1) [of f w] Nil.prems(2) eq have "P w1" by simp
  ultimately show ?case using eq by simp
next
  case (Cons g xs)
  obtain r w1 where eq: "g w = (r, w1)" by (cases "g w")
  from Cons.prems(1) [of g w] Cons.prems(2) eq have p1: "P w1" by simp
  show ?case
  proof (cases r)
    case None
    have "fst (run (xs @ f # ys) w1) \<noteq> None \<and> P (snd (run (xs @ f # ys) w1))"
      by (rule Cons.IH) (simp_all add: Cons.prems(1) p1)
    with None eq show ?thesis by simp
  next
    case (Some err)
    with eq p1 show ?thesis by simp
  qed
qed

lemma set_attr_missing:
  assumes "hdf_file w key = None"
  shows "set_attr key a v w = (Some (KeyError key), w)"
  using assms by (simp add: set_attr_def)

lemma empty_validate_fails:
  "fst (convert_raw_data_to_hdf5 e crop trainIdx [] fileIdx filename dataDir json_data w) \<noteq> None
   \<and> hdf_file (snd (convert_raw_data_to_hdf5 e crop trainIdx [] fileIdx filename dataDir
         json_data w)) ''imgs_test'' = None
   \<and> hdf_file (snd (convert_raw_data_to_hdf5 e crop trainIdx [] fileIdx filename dataDir
         json_data w)) ''msks_test'' = None"
proof -
  let ?P = "\<lambda>w. hdf_file w ''imgs_test'' = None \<and> hdf_file w ''msks_test'' = None"
  let ?xs = "[print ''Step 1 of 4. Save training set images.'',
       save_loop ''imgs_train'' (load_img e crop fileIdx dataDir) True trainIdx,
       set_attr ''imgs_train'' ''modalities'' (modalities json_data),
       print ''Step 2 of 4. Save validation set images.'',
       save_loop ''imgs_test'' (load_img e crop fileIdx dataDir) True []]"
  let ?f = "set_attr ''imgs_test'' ''modalities'' (modalities json_data)"
  let ?ys = "[print ''Step 3 of 4. Save training set masks.'',
       save_loop ''msks_train'' (load_msk e crop fileIdx dataDir) True trainIdx,
       print ''Step 4 of 4. Save validation set masks.'',
       save_loop ''msks_test'' (load_msk e crop fileIdx dataDir) True [],
       print ''Finished processing.'',
       print (''HDF5 saved to '' @ filename)]"
  let ?w1 = "w\<lparr>files := insert filename (files w), hdf_file := metadata_map\<rparr>"
  have vs: "volume_steps e crop trainIdx [] fileIdx filename dataDir json_data = ?xs @ ?f # ?ys"
    by (simp add: volume_steps_def)
  have "fst (run (?xs @ ?f # ?ys) ?w1) \<noteq> None \<and> ?P (snd (run (?xs @ ?f # ?ys) ?w1))"
  proof (rule run_fails_at [where P = ?P])
    show "fst (?f w) \<noteq> None" if "?P w" for w
      using that by (simp add: set_attr_missing)
    show "?P (snd (g w))" if "g \<in> set (?xs @ [?f])" and "?P w" for g w
      using that by (auto simp: set_attr_frame save_loop_frame set_attr_missing)
    show "?P ?w1" by (simp add: metadata_map_def)
  qed
  then show ?thesis unfolding conversion_run vs by blast
qed

lemma empty_train_fails:
  "fst (convert_raw_data_to_hdf5 e crop [] validateIdx fileIdx filename dataDir json_data w) \<noteq> None
   \<and> hdf_file (snd (convert_raw_data_to_hdf5 e crop [] validateIdx fileIdx filename dataDir
         json_data w)) ''imgs_train'' = None
   \<and> hdf_file (snd (convert_raw_data_to_hdf5 e crop [] validateIdx fileIdx filename dataDir
         json_data w)) ''msks_train'' = None"
proof -
  let ?P = "\<lambda>w. hdf_file w ''imgs_train'' = None \<and> hdf_file w ''msks_train'' = None"
  let ?xs = "[print ''Step 1 of 4. Save training set images.'',
       save_loop ''imgs_train'' (load_img e crop fileIdx dataDir) True []]"
  let ?f = "set_attr ''imgs_train'' ''modalities'' (modalities json_data)"
  let ?ys = "[print ''Step 2 of 4. Save validation set images.'',
       save_loop ''imgs_test'' (load_img e crop fileIdx dataDir) True validateIdx,
       set_attr ''imgs_test'' ''modalities'' (modalities json_data),
       print ''Step 3 of 4. Save training set masks.'',
       save_loop ''msks_train'' (load_msk e crop fileIdx dataDir) True [],
       print ''Step 4 of 4. Save validation set masks.'',
       save_loop ''msks_test'' (load_msk e crop fileIdx dataDir) True validateIdx,
       print ''Finished processing.'',
       print (''HDF5 saved to '' @ filename)]"
  let ?w1 = "w\<lparr>files := insert filename (files w), hdf_file := metadata_map\<rparr>"
  have vs: "volume_steps e crop [] validateIdx fileIdx filename dataDir json_data = ?xs @ ?f # ?ys"
    by (simp add: volume_steps_def)
  have "fst (run (?xs @ ?f # ?ys) ?w1) \<noteq> None \<and> ?P (snd (run (?xs @ ?f # ?ys) ?w1))"
  proof (rule run_fails_at [where P = ?P])
    show "fst (?f w) \<noteq> None" if "?P w" for w
      using that by (simp add: set_attr_missing)
    show "?P (snd (g w))" if "g \<in> set (?xs @ [?f])" and "?P w" for g w
      using that by (auto simp: set_attr_frame save_loop_frame set_attr_missing)
    show "?P ?w1" by (simp add: metadata_map_def)
  qed
  then show ?thesis unfolding conversion_run vs by blast
qed

lemma splitter_ratio_one:
  assumes "\<And>i. rnd i < 1" and "splitter rnd n 1 = Inr (tr, va)"
  shows "va = []"
  using splitter_Inr(2) [OF assms(2)] assms(1) by simp

lemma splitter_ratio_zero:
  assumes "\<And>i. 0 \<le> rnd i" and "splitter rnd n 0 = Inr (tr, va)"
  shows "tr = []"
  using splitter_Inr(1) [OF assms(2)] assms(1) by (simp add: not_less)


text \<open>
  C3. The draws of the generator are in the interval from 0 to 1, 1 excluded, and no
  container is open when the script starts. With a split ratio of 1 no run of the script
  completes, and at its end neither the dataset of validation images nor the dataset of
  validation masks exists; with a split ratio of 0 no run completes and the two
  training datasets do not exist.
\<close>

theorem empty_split_fails:
  assumes "\<forall>i. 0 \<le> draws e i \<and> draws e i < 1" and "hdf_file w = Map.empty"
  shows "(split a = 1 \<longrightarrow> fst (main e a w) \<noteq> None
            \<and> hdf_file (snd (main e a w)) ''imgs_test'' = None
            \<and> hdf_file (snd (main e a w)) ''msks_test'' = None)
       \<and> (split a = 0 \<longrightarrow> fst (main e a w) \<noteq> None
            \<and> hdf_file (snd (main e a w)) ''imgs_train'' = None
            \<and> hdf_file (snd (main e a w)) ''msks_train'' = None)"
proof (cases rule: main_cases [of e a w])
  case (dir_error q w1)
  with assms(2) show ?thesis by simp
next
  case (read_error err w1)
  with assms(2) show ?thesis by simp
next
  case (unbound p w1)
  with assms(2) show ?thesis by simp
next
  case (split_error data err w1)
  with assms(2) show ?thesis by simp
next
  case (convert data trainList validateList w1)
  have v: "validateList = []" if "split a = 1"
    using splitter_ratio_one [of "draws e" "numTraining data" trainList validateList]
      convert(2) assms(1) that by simp
  have t: "trainList = []" if "split a = 0"
    using splitter_ratio_zero [of "draws e" "numTraining data" trainList validateList]
      convert(2) assms(1) that by simp
  have "fst (convert_raw_data_to_hdf5 e (resize a) trainList validateList (training data) f
              (data_path a) data w1) \<noteq> None
      \<and> hdf_file (snd (convert_raw_data_to_hdf5 e (resize a) trainList validateList
              (training data) f (data_path a) data w1)) ''imgs_test'' = None
      \<and> hdf_file (snd (convert_raw_data_to_hdf5 e (resize a) trainList validateList
              (training data) f (data_path a) data w1)) ''msks_test'' = None"
    if "split a = 1" for f
    unfolding v [OF that] by (rule empty_validate_fails)
  moreover
  have "fst (convert_raw_data_to_hdf5 e (resize a) trainList validateList (training data) f
              (data_path a) data w1) \<noteq> None
      \<and> hdf_file (snd (convert_raw_data_to_hdf5 e (resize a) trainList validateList
              (training data) f (data_path a) data w1)) ''imgs_train'' = None
      \<and> hdf_file (snd (convert_raw_data_to_hdf5 e (resize a) trainList validateList
              (training data) f (data_path a) data w1)) ''msks_train'' = None"
    if "split a = 0" for f
    unfolding t [OF that] by (rule empty_train_fails)
  ultimately show ?thesis
    unfolding convert(3) by blast
qed

theorem empty_split_fails_witness:
  "(\<forall>i. 0 \<le> draws example_env i \<and> draws example_env i < 1)
   \<and> hdf_file empty_world = Map.empty
   \<and> split (example_args ''data'' 1) = 1
   \<and> fst (main example_env (example_args ''data'' 1) empty_world) \<noteq> None
   \<and> hdf_file (snd (main example_env (example_args ''data'' 1) empty_world)) ''imgs_test'' = None
   \<and> hdf_file (snd (main example_env (example_args ''data'' 1) empty_world)) ''msks_test'' = None"
proof -
  have d: "\<forall>i. 0 \<le> draws example_env i \<and> draws example_env i < 1"
    by (simp add: example_env_def)
  have h: "hdf_file empty_world = Map.empty" by (simp add: empty_world_def)
  have s: "split (example_args ''data'' 1) = 1" by (simp add: example_args_def)
  from empty_split_fails [OF d h, of "example_args ''data'' 1"] d h s show ?thesis by blast
qed


text \<open>
  On the small data set with split ratio 1 the run ends at line 181, where the dataset
  of validation images is looked up.
\<close>

lemma split_one_example:
  "fst (main example_env (example_args ''data'' 1) empty_world) = Some (KeyError ''imgs_test'')"
proof -
  from example_main_convert [OF example_split_one] obtain w1 where
    "main example_env (example_args ''data'' 1) empty_world =
     convert_raw_data_to_hdf5 example_env 2 [0, 1] [] (training example_manifest)
       ''out/2x2/decathlon_brats.h5'' ''data'' example_manifest w1"
    by blast
  then show ?thesis
    unfolding conversion_run
    using example_volume_steps_split_one
      [of "''out/2x2/decathlon_brats.h5''" "w1\<lparr>files := insert ''out/2x2/decathlon_brats.h5'' (files w1)\<rparr>"]
    by simp
qed

subsection \<open>The order of the rows\<close>

lemma run_append_None:
  "run (xs @ ys) w = (None, w') \<longleftrightarrow> (\<exists>w1. run xs w = (None, w1) \<and> run ys w1 = (None, w'))"
  by (auto simp: run_append split: prod.splits option.splits)

lemma set_attr_rows: "dataset_rows (snd (set_attr key a v w)) k = dataset_rows w k"
  by (simp add: set_attr_def dataset_rows_def split: option.splits)

lemma print_rows: "dataset_rows (snd (print msg w)) k = dataset_rows w k"
  by (simp add: dataset_rows_def)

lemma loop_in_run:
  assumes "run (earlier @ save_loop key prep True idxs # later) w = (None, w')"
    and "hdf_file w key = None"
    and "\<And>f w. f \<in> set earlier \<Longrightarrow> hdf_file (snd (f w)) key = hdf_file w key"
    and "\<And>f w. f \<in> set later \<Longrightarrow> dataset_rows (snd (f w)) key = dataset_rows w key"
  shows "\<exists>vols news. map prep idxs = map Inr vols
           \<and> map (stored_rows (tl (shape (hd vols)))) vols = map Inr news
           \<and> dataset_rows w' key = concat news"
proof -
  from assms(1) obtain wa wb where a: "run earlier w = (None, wa)"
    and l: "save_loop key prep True idxs wa = (None, wb)"
    and b: "run later wb = (None, w')"
    by (auto simp: run_append_None run_Cons_None simp del: run.simps)
  have "hdf_file (snd (run earlier w)) key = None"
    by (rule run_preserves [where P = "\<lambda>w. hdf_file w key = None"]) (simp_all add: assms(2,3))
  with a have "key \<notin> dom (hdf_file wa)" by (simp add: domIff)
  from save_loop_True_rows [OF l this] obtain vols news where v: "map prep idxs = map Inr vols"
    and n: "map (stored_rows (tl (shape (hd vols)))) vols = map Inr news"
    and r: "dataset_rows wb key = concat news"
    by blast
  have "dataset_rows (snd (run later wb)) key = concat news"
    by (rule run_preserves [where P = "\<lambda>w. dataset_rows w key = concat news"])
      (simp_all add: assms(4) r)
  with b v n show ?thesis by auto
qed

lemma conversion_rows:
  assumes "convert_raw_data_to_hdf5 e crop trainIdx validateIdx fileIdx filename dataDir json_data w
             = (None, w')"
  shows "(\<exists>vols news. map (load_img e crop fileIdx dataDir) trainIdx = map Inr vols
            \<and> map (stored_rows (tl (shape (hd vols)))) vols = map Inr news
            \<and> dataset_rows w' ''imgs_train'' = concat news)
       \<and> (\<exists>vols news. map (load_img e crop fileIdx dataDir) validateIdx = map Inr vols
            \<and> map (stored_rows (tl (shape (hd vols)))) vols = map Inr news
            \<and> dataset_rows w' ''imgs_test'' = concat news)
       \<and> (\<exists>vols news. map (load_msk e crop fileIdx dataDir) trainIdx = map Inr vols
            \<and> map (stored_rows (tl (shape (hd vols)))) vols = map Inr news
            \<and> dataset_rows w' ''msks_train'' = concat news)
       \<and> (\<exists>vols news. map (load_msk e crop fileIdx dataDir) validateIdx = map Inr vols
            \<and> map (stored_rows (tl (shape (hd vols)))) vols = map Inr news
            \<and> dataset_rows w' ''msks_test'' = concat news)"
proof -
  let ?w1 = "w\<lparr>files := insert filename (files w), hdf_file := metadata_map\<rparr>"
  let ?p1 = "print ''Step 1 of 4. Save training set images.''"
  let ?l1 = "save_loop ''imgs_train'' (load_img e crop fileIdx dataDir) True trainIdx"
  let ?a1 = "set_attr ''imgs_train'' ''modalities'' (modalities json_data)"
  let ?p2 = "print ''Step 2 of 4. Save validation set images.''"
  let ?l2 = "save_loop ''imgs_test'' (load_img e crop fileIdx dataDir) True validateIdx"
  let ?a2 = "set_attr ''imgs_test'' ''modalities'' (modalities json_data)"
  let ?p3 = "print ''Step 3 of 4. Save training set masks.''"
  let ?l3 = "save_loop ''msks_train'' (load_msk e crop fileIdx dataDir) True trainIdx"
  let ?p4 = "print ''Step 4 of 4. Save validation set masks.''"
  let ?l4 = "save_loop ''msks_test'' (load_msk e crop fileIdx dataDir) True validateIdx"
  let ?p5 = "print ''Finished processing.''"
  let ?p6 = "print (''HDF5 saved to '' @ filename)"
  from assms have r: "run [?p1, ?l1, ?a1, ?p2, ?l2, ?a2, ?p3, ?l3, ?p4, ?l4, ?p5, ?p6] ?w1 = (None, w')"
    by (simp only: conversion_run volume_steps_def)
  have m: "hdf_file ?w1 k = None"
    if "k \<in> {''imgs_train'', ''imgs_test'', ''msks_train'', ''msks_test''}" for k
    using that by (auto simp: metadata_map_def)
  have 1: "\<exists>vols news. map (load_img e crop fileIdx dataDir) trainIdx = map Inr vols
            \<and> map (stored_rows (tl (shape (hd vols)))) vols = map Inr news
            \<and> dataset_rows w' ''imgs_train'' = concat news"
  proof (rule loop_in_run [where earlier = "[?p1]"
        and later = "[?a1, ?p2, ?l2, ?a2, ?p3, ?l3, ?p4, ?l4, ?p5, ?p6]" and w = ?w1])
    show "run ([?p1] @ ?l1 # [?a1, ?p2, ?l2, ?a2, ?p3, ?l3, ?p4, ?l4, ?p5, ?p6]) ?w1 = (None, w')"
      using r by (simp only: append.simps)
    show "hdf_file ?w1 ''imgs_train'' = None" by (rule m) simp
    show "hdf_file (snd (f w)) ''imgs_train'' = hdf_file w ''imgs_train''" if "f \<in> set [?p1]" for f w
      using that by auto
    show "dataset_rows (snd (f w)) ''imgs_train'' = dataset_rows w ''imgs_train''"
      if "f \<in> set [?a1, ?p2, ?l2, ?a2, ?p3, ?l3, ?p4, ?l4, ?p5, ?p6]" for f w
      using that by (auto simp: set_attr_rows print_rows save_loop_rows_frame)
  qed
  have 2: "\<exists>vols news. map (load_img e crop fileIdx dataDir) validateIdx = map Inr vols
            \<and> map (stored_rows (tl (shape (hd vols)))) vols = map Inr news
            \<and> dataset_rows w' ''imgs_test'' = concat news"
  proof (rule loop_in_run [where earlier = "[?p1, ?l1, ?a1, ?p2]"
        and later = "[?a2, ?p3, ?l3, ?p4, ?l4, ?p5, ?p6]" and w = ?w1])
    show "run ([?p1, ?l1, ?a1, ?p2] @ ?l2 # [?a2, ?p3, ?l3, ?p4, ?l4, ?p5, ?p6]) ?w1 = (None, w')"
      using r by (simp only: append.simps)
    show "hdf_file ?w1 ''imgs_test'' = None" by (rule m) simp
    show "hdf_file (snd (f w)) ''imgs_test'' = hdf_file w ''imgs_test''"
      if "f \<in> set [?p1, ?l1, ?a1, ?p2]" for f w
      using that by (auto simp: set_attr_frame save_loop_frame)
    show "dataset_rows (snd (f w)) ''imgs_test'' = dataset_rows w ''imgs_test''"
      if "f \<in> set [?a2, ?p3, ?l3, ?p4, ?l4, ?p5, ?p6]" for f w
      using that by (auto simp: set_attr_rows print_rows save_loop_rows_frame)
  qed
  have 3: "\<exists>vols news. map (load_msk e crop fileIdx dataDir) trainIdx = map Inr vols
            \<and> map (stored_rows (tl (shape (hd vols)))) vols = map Inr news
            \<and> dataset_rows w' ''msks_train'' = concat news"
  proof (rule loop_in_run [where earlier = "[?p1, ?l1, ?a1, ?p2, ?l2, ?a2, ?p3]"
        and later = "[?p4, ?l4, ?p5, ?p6]" and w = ?w1])
    show "run ([?p1, ?l1, ?a1, ?p2, ?l2, ?a2, ?p3] @ ?l3 # [?p4, ?l4, ?p5, ?p6]) ?w1 = (None, w')"
      using r by (simp only: append.simps)
    show "hdf_file ?w1 ''msks_train'' = None" by (rule m) simp
    show "hdf_file (snd (f w)) ''msks_train'' = hdf_file w ''msks_train''"
      if "f \<in> set [?p1, ?l1, ?a1, ?p2, ?l2, ?a2, ?p3]" for f w
      using that by (auto simp: set_attr_frame save_loop_frame)
    show "dataset_rows (snd (f w)) ''msks_train'' = dataset_rows w ''msks_train''"
      if "f \<in> set [?p4, ?l4, ?p5, ?p6]" for f w
      using that by (auto simp: print_rows save_loop_rows_frame)
  qed
  have 4: "\<exists>vols news. map (load_msk e crop fileIdx dataDir) validateIdx = map Inr vols
            \<and> map (stored_rows (tl (shape (hd vols)))) vols = map Inr news
            \<and> dataset_rows w' ''msks_test'' = concat news"
  proof (rule loop_in_run [where earlier = "[?p1, ?l1, ?a1, ?p2, ?l2, ?a2, ?p3, ?l3, ?p4]"
        and later = "[?p5, ?p6]" and w = ?w1])
    show "run ([?p1, ?l1, ?a1, ?p2, ?l2, ?a2, ?p3, ?l3, ?p4] @ ?l4 # [?p5, ?p6]) ?w1 = (None, w')"
      using r by (simp only: append.simps)
    show "hdf_file ?w1 ''msks_test'' = None" by (rule m) simp
    show "hdf_file (snd (f w)) ''msks_test'' = hdf_file w ''msks_test''"
      if "f \<in> set [?p1, ?l1, ?a1, ?p2, ?l2, ?a2, ?p3, ?l3, ?p4]" for f w
      using that by (auto simp: set_attr_frame save_loop_frame)
    show "dataset_rows (snd (f w)) ''msks_test'' = dataset_rows w ''msks_test''"
      if "f \<in> set [?p5, ?p6]" for f w
      using that by (auto simp: print_rows)
  qed
  from 1 2 3 4 show ?thesis by blast
qed

lemma four_paths:
  "path_join ''data'' ''./imagesTr/BRATS_001.nii.gz'' = ''data/./imagesTr/BRATS_001.nii.gz''"
  "path_join ''data'' ''./imagesTr/BRATS_002.nii.gz'' = ''data/./imagesTr/BRATS_002.nii.gz''"
  "path_join ''data'' ''./imagesTr/BRATS_003.nii.gz'' = ''data/./imagesTr/BRATS_003.nii.gz''"
  "path_join ''data'' ''./imagesTr/BRATS_004.nii.gz'' = ''data/./imagesTr/BRATS_004.nii.gz''"
  "path_join ''data'' ''./labelsTr/BRATS_001.nii.gz'' = ''data/./labelsTr/BRATS_001.nii.gz''"
  "path_join ''data'' ''./labelsTr/BRATS_002.nii.gz'' = ''data/./labelsTr/BRATS_002.nii.gz''"
  "path_join ''data'' ''./labelsTr/BRATS_003.nii.gz'' = ''data/./labelsTr/BRATS_003.nii.gz''"
  "path_join ''data'' ''./labelsTr/BRATS_004.nii.gz'' = ''data/./labelsTr/BRATS_004.nii.gz''"
  by (simp_all add: path_join_def)

lemma four_load_img:
  assumes "i < 4"
  shows "\<exists>img. load_img four_env 2 (training four_manifest) ''data'' i = Inr img
           \<and> shape img = [1, 1, 2, 1]"
proof -
  have c: "crop_center example_image 2 2 2 =
      Inr \<lparr>shape = [2, 1, 1] @ [1],
           elem = (\<lambda>idx. elem example_image (shift_index [0, 0, 0] idx))\<rparr>"
    using crop_center_eq [of example_image 2 1 1 "[1]" 2 2 2]
    by (simp add: example_image_def example_windows)
  have c': "crop_center second_image 2 2 2 =
      Inr \<lparr>shape = [2, 1, 1] @ [1],
           elem = (\<lambda>idx. elem second_image (shift_index [0, 0, 0] idx))\<rparr>"
    using crop_center_eq [of second_image 2 1 1 "[1]" 2 2 2]
    by (simp add: second_image_def example_windows)
  from assms have "i = 0 \<or> i = 1 \<or> i = 2 \<or> i = 3" by auto
  then show ?thesis
    by (auto simp: load_img_def ebind_def list_get_def four_manifest_def four_env_def
        four_paths c c' normalize_img_def swapaxes_def normalize_axis_def swap_at_def)
qed

lemma four_load_msk:
  assumes "i < 4"
  shows "\<exists>msk. load_msk four_env 2 (training four_manifest) ''data'' i = Inr msk
           \<and> shape msk = [1, 1, 2, 1]"
proof -
  have c: "crop_center example_label 2 2 2 =
      Inr \<lparr>shape = [2, 1, 1] @ [],
           elem = (\<lambda>idx. elem example_label (shift_index [0, 0, 0] idx))\<rparr>"
    using crop_center_eq [of example_label 2 1 1 "[]" 2 2 2]
    by (simp add: example_label_def example_windows)
  have c': "crop_center second_label 2 2 2 =
      Inr \<lparr>shape = [2, 1, 1] @ [],
           elem = (\<lambda>idx. elem second_label (shift_index [0, 0, 0] idx))\<rparr>"
    using crop_center_eq [of second_label 2 1 1 "[]" 2 2 2]
    by (simp add: second_label_def example_windows)
  from assms have "i = 0 \<or> i = 1 \<or> i = 2 \<or> i = 3" by auto
  then show ?thesis
    by (auto simp: load_msk_def ebind_def list_get_def four_manifest_def four_env_def
        four_paths c c' binarize_def swapaxes_def normalize_axis_def swap_at_def
        expand_dims_def)
qed

lemma four_split:
  "splitter (draws four_env) (numTraining four_manifest) (1 / 2) = Inr ([0, 3], [1, 2])"
proof -
  have "[0..<4] = [0, 1, 2, 3]" by (simp add: upt_rec)
  then show ?thesis
    by (simp add: splitter_def mask_select_def four_env_def four_manifest_def)
qed

lemma four_conversion_ok:
  "\<exists>w'. convert_raw_data_to_hdf5 four_env 2 [0, 3] [1, 2] (training four_manifest)
          ''out/2x2/decathlon_brats.h5'' ''data'' four_manifest empty_world = (None, w')"
proof -
  let ?img = "load_img four_env 2 (training four_manifest) ''data''"
  let ?msk = "load_msk four_env 2 (training four_manifest) ''data''"
  obtain a0 where a0: "?img 0 = Inr a0" "shape a0 = [1, 1, 2, 1]"
    using four_load_img [of 0] by auto
  obtain a1 where a1: "?img (Suc 0) = Inr a1" "shape a1 = [1, 1, 2, 1]"
    using four_load_img [of "Suc 0"] by auto
  obtain a2 where a2: "?img 2 = Inr a2" "shape a2 = [1, 1, 2, 1]"
    using four_load_img [of 2] by auto
  obtain a3 where a3: "?img 3 = Inr a3" "shape a3 = [1, 1, 2, 1]"
    using four_load_img [of 3] by auto
  obtain b0 where b0: "?msk 0 = Inr b0" "shape b0 = [1, 1, 2, 1]"
    using four_load_msk [of 0] by auto
  obtain b1 where b1: "?msk (Suc 0) = Inr b1" "shape b1 = [1, 1, 2, 1]"
    using four_load_msk [of "Suc 0"] by auto
  obtain b2 where b2: "?msk 2 = Inr b2" "shape b2 = [1, 1, 2, 1]"
    using four_load_msk [of 2] by auto
  obtain b3 where b3: "?msk 3 = Inr b3" "shape b3 = [1, 1, 2, 1]"
    using four_load_msk [of 3] by auto
  note loops =
    save_loop_two [where prep = ?img and i = 0 and j = 3, OF a0 a3]
    save_loop_two [where prep = ?img and i = "Suc 0" and j = 2, OF a1 a2]
    save_loop_two [where prep = ?msk and i = 0 and j = 3, OF b0 b3]
    save_loop_two [where prep = ?msk and i = "Suc 0" and j = 2, OF b1 b2]
  have "fst (convert_raw_data_to_hdf5 four_env 2 [0, 3] [1, 2] (training four_manifest)
          ''out/2x2/decathlon_brats.h5'' ''data'' four_manifest empty_world) = None"
    unfolding conversion_run
    by (simp del: save_loop.simps
        add: volume_steps_def print_def loops set_attr_def metadata_map_def)
  then show ?thesis
    by (cases "convert_raw_data_to_hdf5 four_env 2 [0, 3] [1, 2] (training four_manifest)
          ''out/2x2/decathlon_brats.h5'' ''data'' four_manifest empty_world") simp
qed

text \<open>
  C10. The two index lists that the splitter returns are strictly increasing. When the
  conversion of these lists completes, every volume of the lists was loaded, and the rows
  of each of the four datasets are the rows stored for the volumes of its list, volume
  after volume in the order of the list, which is the ascending order of the indices.
\<close>

theorem split_order_kept:
  assumes "splitter rnd n ratio = Inr (trainList, validateList)"
    and "convert_raw_data_to_hdf5 e crop trainList validateList fileIdx filename dataDir json_data w
           = (None, w')"
  shows "sorted_wrt (<) trainList \<and> sorted_wrt (<) validateList
       \<and> (\<exists>vols news. map (load_img e crop fileIdx dataDir) trainList = map Inr vols
            \<and> map (stored_rows (tl (shape (hd vols)))) vols = map Inr news
            \<and> dataset_rows w' ''imgs_train'' = concat news)
       \<and> (\<exists>vols news. map (load_img e crop fileIdx dataDir) validateList = map Inr vols
            \<and> map (stored_rows (tl (shape (hd vols)))) vols = map Inr news
            \<and> dataset_rows w' ''imgs_test'' = concat news)
       \<and> (\<exists>vols news. map (load_msk e crop fileIdx dataDir) trainList = map Inr vols
            \<and> map (stored_rows (tl (shape (hd vols)))) vols = map Inr news
            \<and> dataset_rows w' ''msks_train'' = concat news)
       \<and> (\<exists>vols news. map (load_msk e crop fileIdx dataDir) validateList = map Inr vols
            \<and> map (stored_rows (tl (shape (hd vols)))) vols = map Inr news
            \<and> dataset_rows w' ''msks_test'' = concat news)"
proof -
  from splitter_Inr [OF assms(1)] have "sorted_wrt (<) trainList" and "sorted_wrt (<) validateList"
    by (simp_all add: sorted_wrt_filter)
  with conversion_rows [OF assms(2)] show ?thesis by blast
qed

theorem split_order_kept_witness:
  "\<exists>w'. splitter (draws four_env) (numTraining four_manifest) (1 / 2) = Inr ([0, 3], [1, 2])
     \<and> convert_raw_data_to_hdf5 four_env 2 [0, 3] [1, 2] (training four_manifest)
          ''out/2x2/decathlon_brats.h5'' ''data'' four_manifest empty_world = (None, w')
     \<and> sorted_wrt (<) [0, 3 :: nat] \<and> sorted_wrt (<) [1, 2 :: nat]
     \<and> (\<exists>vols news. map (load_img four_env 2 (training four_manifest) ''data'') [0, 3] = map Inr vols
            \<and> map (stored_rows (tl (shape (hd vols)))) vols = map Inr news
            \<and> dataset_rows w' ''imgs_train'' = concat news)
     \<and> (\<exists>vols news. map (load_img four_env 2 (training four_manifest) ''data'') [1, 2] = map Inr vols
            \<and> map (stored_rows (tl (shape (hd vols)))) vols = map Inr news
            \<and> dataset_rows w' ''imgs_test'' = concat news)
     \<and> (\<exists>vols news. map (load_msk four_env 2 (training four_manifest) ''data'') [0, 3] = map Inr vols
            \<and> map (stored_rows (tl (shape (hd vols)))) vols = map Inr news
            \<and> dataset_rows w' ''msks_train'' = concat news)
     \<and> (\<exists>vols news. map (load_msk four_env 2 (training four_manifest) ''data'') [1, 2] = map Inr vols
            \<and> map (stored_rows (tl (shape (hd vols)))) vols = map Inr news
            \<and> dataset_rows w' ''msks_test'' = concat news)"
proof -
  from four_conversion_ok obtain w' where
    c: "convert_raw_data_to_hdf5 four_env 2 [0, 3] [1, 2] (training four_manifest)
          ''out/2x2/decathlon_brats.h5'' ''data'' four_manifest empty_world = (None, w')"
    by blast
  from split_order_kept [OF four_split c] four_split c
  show ?thesis by blast
qed

end
